theory Spec2Isabelle
  imports Complex_Main
begin

section \<open>The Morris trajectory design generator\<close>

text \<open>
  A shallow embedding of \<^verbatim>\<open>src/lib/src/MorrisExperiment.cxx\<close>: the four constructors
  of \<^verbatim>\<open>MorrisExperiment\<close>, \<^verbatim>\<open>getOrientationMatrixColumn\<close>, \<^verbatim>\<open>generate\<close> and the two
  base-point generators.

  Conventions of the model.
  \<^item> \<^verbatim>\<open>NumericalScalar\<close> (a C++ \<^verbatim>\<open>double\<close>) is modelled by \<open>real\<close>: the arithmetic of the
    code is read over the real numbers, so rounding, infinities and NaN are outside
    the model. Two places need care. The step \<^verbatim>\<open>0.5 / lhsDesign.getSize()\<close> of an empty
    design is a division by zero: the statements about \<open>generate\<close> carry the hypothesis
    that a supplied pool is not empty. The cast of line 204 turns a double into an
    integer, and there rounding changes the result (for 100 levels the doubles give
    99): its value is taken from the environment, see \<open>static_cast\<close> below.
  \<^item> \<^verbatim>\<open>UnsignedInteger\<close> is modelled by \<open>nat\<close>; the row count and the row index of
    \<open>generate\<close> are reduced modulo \<open>2 ^ 64\<close>, as the 64-bit arithmetic of the code does.
  \<^item> \<^verbatim>\<open>operator[]\<close> of the library collections is unchecked: an access outside the
    collection is undefined behaviour, and the model stops there with the result
    \<open>OutOfRangeAccess\<close>.
  \<^item> Every \<^verbatim>\<open>throw\<close> of the source is a branch returning \<open>Inl\<close>.
  \<^item> The random source is a parameter: the values returned by the library's random
    calls while one trajectory is built are collected in a record of type \<open>draws\<close>,
    and \<open>generate\<close> receives one such record per trajectory. The calls themselves
    (the distributions of lines 139 to 144, the draws of lines 170, 172, 192 and 205,
    the allocation of line 150) are library code outside the source file. The model
    takes it that they return; what the library does for dimension 0 cannot be read
    from the source, so the statements about \<open>generate\<close> carry the hypothesis that the
    dimension is at least 1.
\<close>

subsection \<open>Errors\<close>

text \<open>
  Every \<^verbatim>\<open>throw\<close> in the source raises \<^verbatim>\<open>InvalidArgumentException\<close>; the throw sites
  differ by their message only. The model tags each site with the kind under which
  the specification (section 7) lists it:
  \<^item> "Levels should be at least 2": \<open>InvalidConfiguration\<close>;
  \<^item> "Levels and interval should be of same size" and
    "Levels and design should have same dimension": \<open>DimensionMismatch\<close>;
  \<^item> "Given design is not in [0,1]^d": \<open>OutOfRangeInput\<close>;
  \<^item> "Could not build the column": \<open>IndexOutOfRange\<close>.

  \<open>InternalException\<close> is what the library's \<^verbatim>\<open>getMin\<close> and \<^verbatim>\<open>getMax\<close> raise on an
  empty sample. \<open>OutOfRangeAccess\<close> is no exception: it marks an unchecked access
  outside a collection.
\<close>

datatype error_kind = InvalidConfiguration | DimensionMismatch | OutOfRangeInput | IndexOutOfRange

datatype error = InvalidArgumentException error_kind | InternalException | OutOfRangeAccess

subsection \<open>The library's data types\<close>

type_synonym NumericalPoint = "real list"

record Interval =
  lowerBound :: NumericalPoint
  upperBound :: NumericalPoint

definition getDimension :: "Interval \<Rightarrow> nat" where
  "getDimension iv = length (lowerBound iv)"

text \<open>The class invariant of \<^verbatim>\<open>Interval\<close>: both bounds have the interval's dimension.\<close>

definition wf_Interval :: "Interval \<Rightarrow> bool" where
  "wf_Interval iv \<longleftrightarrow> length (upperBound iv) = length (lowerBound iv)"

text \<open>
  Modelled from the spec: the library constructor \<^verbatim>\<open>Interval(n)\<close>, which is not part
  of the repository. "Domain defaults to the unit hyper-rectangle of dimension
  \<^verbatim>\<open>len(levels)\<close>".
\<close>

definition Interval_unit :: "nat \<Rightarrow> Interval" where
  "Interval_unit n = \<lparr>lowerBound = replicate n 0, upperBound = replicate n 1\<rparr>"

record NumericalSample =
  dimension :: nat
  points :: "NumericalPoint list"

definition getSize :: "NumericalSample \<Rightarrow> nat" where
  "getSize s = length (points s)"

text \<open>The class invariant of \<^verbatim>\<open>NumericalSample\<close>: every point has the sample's dimension.\<close>

definition wf_Sample :: "NumericalSample \<Rightarrow> bool" where
  "wf_Sample s \<longleftrightarrow> (\<forall>pt \<in> set (points s). length pt = dimension s)"

text \<open>The library's default sample \<^verbatim>\<open>NumericalSample()\<close>: no point.\<close>

definition NumericalSample_default :: NumericalSample where
  "NumericalSample_default = \<lparr>dimension = 1, points = []\<rparr>"

text \<open>
  Library operations on samples, not part of the repository. \<^verbatim>\<open>getMin\<close> and \<^verbatim>\<open>getMax\<close>
  return the coordinate-wise minimum and maximum over the points of a sample.
\<close>

definition component :: "NumericalSample \<Rightarrow> nat \<Rightarrow> real list" where
  "component s k = map (\<lambda>pt. pt ! k) (points s)"

definition getMin :: "NumericalSample \<Rightarrow> error + NumericalPoint" where
  "getMin s =
     (if getSize s = 0 then Inl InternalException
      else Inr (map (\<lambda>k. fold min (tl (component s k)) (hd (component s k))) [0..<dimension s]))"

definition getMax :: "NumericalSample \<Rightarrow> error + NumericalPoint" where
  "getMax s =
     (if getSize s = 0 then Inl InternalException
      else Inr (map (\<lambda>k. fold max (tl (component s k)) (hd (component s k))) [0..<dimension s]))"

text \<open>
  Modelled from the spec: the library operators \<^verbatim>\<open>sample - point\<close> and
  \<^verbatim>\<open>sample /= point\<close>, which are not part of the repository. "The pool is immediately
  renormalized: \<^verbatim>\<open>pool := (pool - lowerBound) / (upperBound - lowerBound)\<close>",
  coordinate by coordinate.
\<close>

definition point_minus :: "NumericalPoint \<Rightarrow> NumericalPoint \<Rightarrow> NumericalPoint" where
  "point_minus x y = map2 (-) x y"

definition sample_minus :: "NumericalSample \<Rightarrow> NumericalPoint \<Rightarrow> NumericalSample" where
  "sample_minus s t = s\<lparr>points := map (\<lambda>pt. map2 (-) pt t) (points s)\<rparr>"

definition sample_divide :: "NumericalSample \<Rightarrow> NumericalPoint \<Rightarrow> NumericalSample" where
  "sample_divide s t = s\<lparr>points := map (\<lambda>pt. map2 (/) pt t) (points s)\<rparr>"

subsection \<open>The generator and its constructors\<close>

text \<open>
  The members \<^verbatim>\<open>interval_\<close>, \<^verbatim>\<open>experiment_\<close>, \<^verbatim>\<open>step_\<close> and \<^verbatim>\<open>N_\<close> of the class; a name
  cannot end with an underscore here, so the fields carry the prefix \<open>m_\<close>.
\<close>

record MorrisExperiment =
  m_interval :: Interval
  m_experiment :: NumericalSample
  m_step :: NumericalPoint
  m_N :: nat

text \<open>
  The loop "Compute step" shared by the two levels-based constructors: it throws at
  the first level that is at most 1.
\<close>

fun compute_step :: "nat list \<Rightarrow> error + NumericalPoint" where
  "compute_step [] = Inr []"
| "compute_step (l # ls) =
     (if l \<le> 1 then Inl (InvalidArgumentException InvalidConfiguration)
      else (case compute_step ls of
              Inl err \<Rightarrow> Inl err
            | Inr st \<Rightarrow> Inr (1 / (real l - 1) # st)))"

text \<open>\<^verbatim>\<open>MorrisExperiment(const Indices & levels, const UnsignedInteger N)\<close>\<close>

definition MorrisExperiment_levels :: "nat list \<Rightarrow> nat \<Rightarrow> error + MorrisExperiment" where
  "MorrisExperiment_levels levels N =
     (case compute_step levels of
        Inl err \<Rightarrow> Inl err
      | Inr st \<Rightarrow> Inr \<lparr>m_interval = Interval_unit (length levels),
                      m_experiment = NumericalSample_default,
                      m_step = st, m_N = N\<rparr>)"

text \<open>\<^verbatim>\<open>MorrisExperiment(const Indices & levels, const Interval & interval, const UnsignedInteger N)\<close>\<close>

definition MorrisExperiment_levels_interval ::
  "nat list \<Rightarrow> Interval \<Rightarrow> nat \<Rightarrow> error + MorrisExperiment" where
  "MorrisExperiment_levels_interval levels interval N =
     (if length levels \<noteq> getDimension interval
      then Inl (InvalidArgumentException DimensionMismatch)
      else (case compute_step levels of
              Inl err \<Rightarrow> Inl err
            | Inr st \<Rightarrow> Inr \<lparr>m_interval = interval,
                            m_experiment = NumericalSample_default,
                            m_step = st, m_N = N\<rparr>))"

text \<open>
  The check of the pool-only constructor: for \<open>k\<close> from 0 below the size of \<open>xMax\<close>,
  throw if \<^verbatim>\<open>(xMin[k] < 0.0) || (xMax[k] > 1.0)\<close>.
\<close>

definition outside_unit_cube :: "NumericalPoint \<Rightarrow> NumericalPoint \<Rightarrow> bool" where
  "outside_unit_cube xMin xMax = list_ex (\<lambda>k. xMin ! k < 0 \<or> xMax ! k > 1) [0..<length xMax]"

text \<open>\<^verbatim>\<open>MorrisExperiment(const NumericalSample & lhsDesign, const UnsignedInteger N)\<close>\<close>

definition MorrisExperiment_lhs :: "NumericalSample \<Rightarrow> nat \<Rightarrow> error + MorrisExperiment" where
  "MorrisExperiment_lhs lhsDesign N =
     (case getMin lhsDesign of
        Inl err \<Rightarrow> Inl err
      | Inr xMin \<Rightarrow>
          (case getMax lhsDesign of
             Inl err \<Rightarrow> Inl err
           | Inr xMax \<Rightarrow>
               if outside_unit_cube xMin xMax
               then Inl (InvalidArgumentException OutOfRangeInput)
               else Inr \<lparr>m_interval = Interval_unit (dimension lhsDesign),
                         m_experiment = lhsDesign,
                         m_step = replicate (dimension lhsDesign) (0.5 / real (getSize lhsDesign)),
                         m_N = N\<rparr>))"

text \<open>\<^verbatim>\<open>MorrisExperiment(const NumericalSample & lhsDesign, const Interval & interval, const UnsignedInteger N)\<close>\<close>

definition MorrisExperiment_lhs_interval ::
  "NumericalSample \<Rightarrow> Interval \<Rightarrow> nat \<Rightarrow> error + MorrisExperiment" where
  "MorrisExperiment_lhs_interval lhsDesign interval N =
     (if dimension lhsDesign \<noteq> getDimension interval
      then Inl (InvalidArgumentException DimensionMismatch)
      else Inr \<lparr>m_interval = interval,
                m_experiment =
                  sample_divide (sample_minus lhsDesign (lowerBound interval))
                    (point_minus (upperBound interval) (lowerBound interval)),
                m_step = replicate (dimension lhsDesign) (0.5 / real (getSize lhsDesign)),
                m_N = N\<rparr>)"

text \<open>
  \<open>constructed pool e\<close>: one of the four constructors returned the generator \<open>e\<close> on
  arguments that satisfy the class invariants of the library types; \<open>pool\<close> is the
  design it was given, if any.
\<close>

inductive constructed :: "NumericalSample option \<Rightarrow> MorrisExperiment \<Rightarrow> bool" where
  from_levels:
    "MorrisExperiment_levels levels N = Inr e \<Longrightarrow> constructed None e"
| from_levels_interval:
    "wf_Interval interval \<Longrightarrow> MorrisExperiment_levels_interval levels interval N = Inr e
     \<Longrightarrow> constructed None e"
| from_lhs:
    "wf_Sample lhsDesign \<Longrightarrow> MorrisExperiment_lhs lhsDesign N = Inr e
     \<Longrightarrow> constructed (Some lhsDesign) e"
| from_lhs_interval:
    "wf_Sample lhsDesign \<Longrightarrow> wf_Interval interval
     \<Longrightarrow> MorrisExperiment_lhs_interval lhsDesign interval N = Inr e
     \<Longrightarrow> constructed (Some lhsDesign) e"

text \<open>The pool, where one was supplied, holds at least one point.\<close>

fun pool_not_empty :: "NumericalSample option \<Rightarrow> bool" where
  "pool_not_empty None = True"
| "pool_not_empty (Some lhsDesign) = (0 < getSize lhsDesign)"

subsection \<open>The environment of \<open>generate\<close>\<close>

text \<open>
  What \<open>generate\<close> obtains from outside while one trajectory is built:
  \<^item> \<open>IntegerGenerate c n\<close> is the result of the \<open>c\<close>-th call
    \<^verbatim>\<open>RandomGenerator::IntegerGenerate(n)\<close> of the trajectory;
  \<^item> \<open>permutations\<close> is the result of \<^verbatim>\<open>permutationDistribution.getRealization()\<close>;
  \<^item> \<open>directions\<close> is the data of \<^verbatim>\<open>directionDistribution.getSample(dimension)\<close>;
  \<^item> \<open>static_cast x\<close> is the integer that \<^verbatim>\<open>static_cast<UnsignedInteger>\<close> yields on the
    double that the machine computes for an expression whose exact value is \<open>x\<close>.
\<close>

record draws =
  IntegerGenerate :: "nat \<Rightarrow> nat \<Rightarrow> nat"
  permutations :: "nat list"
  directions :: "real list"
  static_cast :: "real \<Rightarrow> nat"

text \<open>
  The contract of the environment: an integer draw lies in \<open>[0, n)\<close>; the direction
  sample holds \<open>dimension\<close> values, each \<open>1\<close> or \<open>-1\<close>; where the exact value of the
  expression of line 204 is an integer \<open>n\<close> with \<open>2 \<le> n \<le> 2 ^ 32\<close>, the cast yields at
  least 2 and at most \<open>n\<close>. In IEEE doubles the quotient \<^verbatim>\<open>1 / step_[p]\<close> of such an \<open>n\<close>
  is off by less than 1, so that the cast yields \<open>n\<close> or \<open>n - 1\<close>, and \<open>2\<close> for \<open>n = 2\<close>;
  beyond \<open>2 ^ 53\<close> the cast can exceed \<open>n\<close>, hence the bound. The permutation is not
  constrained: \<open>generate\<close> never reads it.
\<close>

definition admissible :: "nat \<Rightarrow> draws \<Rightarrow> bool" where
  "admissible d r \<longleftrightarrow>
     (\<forall>c n. 0 < n \<longrightarrow> IntegerGenerate r c n < n) \<and>
     length (directions r) = d \<and>
     (\<forall>x \<in> set (directions r). x = 1 \<or> x = - 1) \<and>
     (\<forall>n. 2 \<le> n \<and> n \<le> 2 ^ 32 \<longrightarrow>
          2 \<le> static_cast r (real n) \<and> static_cast r (real n) \<le> n)"

subsection \<open>Unchecked accesses and 64-bit integers\<close>

text \<open>\<^verbatim>\<open>xs[i]\<close>, read.\<close>

definition read :: "'a list \<Rightarrow> nat \<Rightarrow> error + 'a" where
  "read xs i = (if i < length xs then Inr (xs ! i) else Inl OutOfRangeAccess)"

text \<open>Sequencing: the first failure ends the computation.\<close>

definition and_then :: "error + 'a \<Rightarrow> ('a \<Rightarrow> error + 'b) \<Rightarrow> error + 'b" where
  "and_then m f = (case m of Inl err \<Rightarrow> Inl err | Inr x \<Rightarrow> f x)"

text \<open>
  The value of an unsigned 64-bit expression of sums and products, and \<^verbatim>\<open>n - 1\<close> in
  unsigned 64-bit arithmetic.
\<close>

definition UnsignedInteger :: "nat \<Rightarrow> nat" where
  "UnsignedInteger n = n mod 2 ^ 64"

definition minus_one :: "nat \<Rightarrow> nat" where
  "minus_one n = (if n = 0 then 2 ^ 64 - 1 else n - 1)"

subsection \<open>Generation\<close>

text \<open>\<^verbatim>\<open>getOrientationMatrixColumn\<close>: entries \<open>0..p\<close> are \<open>-1\<close>, the others \<open>1\<close>.\<close>

definition orientation :: "nat \<Rightarrow> nat \<Rightarrow> NumericalPoint" where
  "orientation d p =
     fold (\<lambda>i orientation. orientation[i := - 1]) [0..<p + 1] (replicate (d + 1) 1)"

definition getOrientationMatrixColumn :: "MorrisExperiment \<Rightarrow> nat \<Rightarrow> error + NumericalPoint" where
  "getOrientationMatrixColumn e p =
     (if p \<ge> length (m_step e) then Inl (InvalidArgumentException IndexOutOfRange)
      else Inr (orientation (length (m_step e)) p))"

text \<open>\<^verbatim>\<open>generateXBaseFromLHS\<close>: one index is drawn and the stored point at it returned.\<close>

definition generateXBaseFromLHS :: "MorrisExperiment \<Rightarrow> draws \<Rightarrow> error + NumericalPoint" where
  "generateXBaseFromLHS e r =
     read (points (m_experiment e)) (IntegerGenerate r 0 (getSize (m_experiment e)))"

text \<open>
  \<^verbatim>\<open>generateXBaseFromGrid\<close>. The level count is the cast of \<^verbatim>\<open>1 + 1 / step_[p]\<close>, and
  \<^verbatim>\<open>level - 1\<close> is unsigned.
\<close>

definition level :: "draws \<Rightarrow> real \<Rightarrow> nat" where
  "level r st = static_cast r (1 + 1 / st)"

fun grid_loop ::
  "MorrisExperiment \<Rightarrow> draws \<Rightarrow> nat list \<Rightarrow> NumericalPoint \<Rightarrow> error + NumericalPoint" where
  "grid_loop e r [] xBase = Inr xBase"
| "grid_loop e r (p # ps) xBase =
     and_then (read (m_step e) p) (\<lambda>st.
       grid_loop e r ps
         (xBase[p := st * real (IntegerGenerate r p (minus_one (level r st)))]))"

definition generateXBaseFromGrid :: "MorrisExperiment \<Rightarrow> draws \<Rightarrow> error + NumericalPoint" where
  "generateXBaseFromGrid e r =
     grid_loop e r [0..<getDimension (m_interval e)]
       (replicate (getDimension (m_interval e)) 0)"

definition generateXBase :: "MorrisExperiment \<Rightarrow> draws \<Rightarrow> error + NumericalPoint" where
  "generateXBase e r =
     (if getSize (m_experiment e) > 0 then generateXBaseFromLHS e r
      else generateXBaseFromGrid e r)"

definition delta :: "MorrisExperiment \<Rightarrow> NumericalPoint" where
  "delta e = point_minus (upperBound (m_interval e)) (lowerBound (m_interval e))"

text \<open>The right-hand side of the assignment of line 180, with its six reads.\<close>

definition realization ::
  "MorrisExperiment \<Rightarrow> draws \<Rightarrow> NumericalPoint \<Rightarrow> NumericalPoint \<Rightarrow> nat \<Rightarrow> nat \<Rightarrow> error + real" where
  "realization e r xBase orientationMatrixColumn i p =
     and_then (read (delta e) p) (\<lambda>delta_p.
     and_then (read orientationMatrixColumn i) (\<lambda>orientation_i.
     and_then (read (directions r) p) (\<lambda>directions_p.
     and_then (read (m_step e) p) (\<lambda>step_p.
     and_then (read xBase p) (\<lambda>xBase_p.
     and_then (read (lowerBound (m_interval e)) p) (\<lambda>lowerBound_p.
       Inr (delta_p * ((orientation_i * directions_p + 1) * 0.5 * step_p + xBase_p)
            + lowerBound_p)))))))"

text \<open>\<^verbatim>\<open>realizations[row][p] = v\<close>, the write.\<close>

definition setEntry :: "real list list \<Rightarrow> nat \<Rightarrow> nat \<Rightarrow> real \<Rightarrow> error + real list list" where
  "setEntry realizations row p v =
     (if row < length realizations \<and> p < length (realizations ! row)
      then Inr (realizations[row := (realizations ! row)[p := v]])
      else Inl OutOfRangeAccess)"

text \<open>The innermost loop, over the \<open>dimension + 1\<close> rows of trajectory \<open>k\<close>.\<close>

fun fill_column ::
  "MorrisExperiment \<Rightarrow> draws \<Rightarrow> NumericalPoint \<Rightarrow> nat \<Rightarrow> nat \<Rightarrow> NumericalPoint
   \<Rightarrow> nat list \<Rightarrow> real list list \<Rightarrow> error + real list list" where
  "fill_column e r xBase k p orientationMatrixColumn [] realizations = Inr realizations"
| "fill_column e r xBase k p orientationMatrixColumn (i # is) realizations =
     and_then (realization e r xBase orientationMatrixColumn i p) (\<lambda>v.
     and_then (setEntry realizations
                 (UnsignedInteger (k * (length (m_step e) + 1) + i)) p v)
       (fill_column e r xBase k p orientationMatrixColumn is))"

text \<open>The loop over \<open>p\<close>; the call of \<open>getOrientationMatrixColumn\<close> may throw.\<close>

fun fill_trajectory ::
  "MorrisExperiment \<Rightarrow> draws \<Rightarrow> NumericalPoint \<Rightarrow> nat \<Rightarrow> nat list
   \<Rightarrow> real list list \<Rightarrow> error + real list list" where
  "fill_trajectory e r xBase k [] realizations = Inr realizations"
| "fill_trajectory e r xBase k (p # ps) realizations =
     and_then (getOrientationMatrixColumn e p) (\<lambda>orientationMatrixColumn.
     and_then (fill_column e r xBase k p orientationMatrixColumn
                 [0..<length (m_step e) + 1] realizations)
       (fill_trajectory e r xBase k ps))"

text \<open>The loop over the trajectories; \<open>rnd k\<close> is the environment of trajectory \<open>k\<close>.\<close>

fun fill_trajectories ::
  "MorrisExperiment \<Rightarrow> (nat \<Rightarrow> draws) \<Rightarrow> nat list \<Rightarrow> real list list
   \<Rightarrow> error + real list list" where
  "fill_trajectories e rnd [] realizations = Inr realizations"
| "fill_trajectories e rnd (k # ks) realizations =
     and_then (generateXBase e (rnd k)) (\<lambda>xBase.
     and_then (fill_trajectory e (rnd k) xBase k [0..<length (m_step e)] realizations)
       (fill_trajectories e rnd ks))"

text \<open>
  \<^verbatim>\<open>generate\<close>: the support sample has \<^verbatim>\<open>N_ * (dimension + 1)\<close> rows, a 64-bit product, of
  \<open>dimension\<close> zeros.
\<close>

definition generate :: "MorrisExperiment \<Rightarrow> (nat \<Rightarrow> draws) \<Rightarrow> error + real list list" where
  "generate e rnd =
     fill_trajectories e rnd [0..<m_N e]
       (replicate (UnsignedInteger (m_N e * (length (m_step e) + 1)))
          (replicate (length (m_step e)) 0))"

subsection \<open>Notions used in the statements and the proofs\<close>

text \<open>
  The loops on a run where every access is in range: \<open>put\<close> is the write, \<open>entry\<close> the
  value of line 180, \<open>block\<close> writes the columns below \<open>n\<close> of the \<open>m\<close> rows from row
  \<open>b\<close> on, \<open>blocks\<close> writes the first \<open>n\<close> trajectories. \<open>reads_in_range\<close> collects the
  six reads of line 180, \<open>row_index\<close> the 64-bit row index of line 180, \<open>grid_value\<close>
  the value of line 205, \<open>shape\<close> the size of the support sample.
\<close>

definition put :: "real list list \<Rightarrow> nat \<Rightarrow> nat \<Rightarrow> real \<Rightarrow> real list list" where
  "put R row p v = R[row := (R ! row)[p := v]]"

definition entry ::
  "MorrisExperiment \<Rightarrow> draws \<Rightarrow> NumericalPoint \<Rightarrow> NumericalPoint \<Rightarrow> nat \<Rightarrow> nat \<Rightarrow> real" where
  "entry e r xBase col i p =
     delta e ! p * ((col ! i * directions r ! p + 1) * 0.5 * m_step e ! p + xBase ! p)
     + lowerBound (m_interval e) ! p"

definition reads_in_range ::
  "MorrisExperiment \<Rightarrow> draws \<Rightarrow> NumericalPoint \<Rightarrow> NumericalPoint \<Rightarrow> nat \<Rightarrow> nat \<Rightarrow> bool" where
  "reads_in_range e r xBase col i p \<longleftrightarrow>
     p < length (delta e) \<and> i < length col \<and> p < length (directions r) \<and>
     p < length (m_step e) \<and> p < length xBase \<and> p < length (lowerBound (m_interval e))"

definition row_index :: "MorrisExperiment \<Rightarrow> nat \<Rightarrow> nat \<Rightarrow> nat" where
  "row_index e k i = UnsignedInteger (k * (length (m_step e) + 1) + i)"

definition grid_value :: "MorrisExperiment \<Rightarrow> draws \<Rightarrow> nat \<Rightarrow> real" where
  "grid_value e r p =
     m_step e ! p *
       real (IntegerGenerate r p (minus_one (level r (m_step e ! p))))"

definition shape :: "nat \<Rightarrow> nat \<Rightarrow> real list list \<Rightarrow> bool" where
  "shape M d R \<longleftrightarrow> length R = M \<and> (\<forall>row \<in> set R. length row = d)"

definition block ::
  "nat \<Rightarrow> nat \<Rightarrow> (nat \<Rightarrow> nat \<Rightarrow> real) \<Rightarrow> nat \<Rightarrow> real list list \<Rightarrow> real list list" where
  "block b m g n R =
     fold (\<lambda>p R. fold (\<lambda>i R. put R (b + i) p (g p i)) [0..<m] R) [0..<n] R"

definition blocks ::
  "nat \<Rightarrow> (nat \<Rightarrow> nat \<Rightarrow> nat \<Rightarrow> real) \<Rightarrow> nat \<Rightarrow> real list list \<Rightarrow> real list list" where
  "blocks d g n R = fold (\<lambda>k R. block (k * (d + 1)) (d + 1) (g k) d R) [0..<n] R"

text \<open>The base point of a trajectory, where \<open>generateXBase\<close> returns one.\<close>

definition xBase_of :: "MorrisExperiment \<Rightarrow> draws \<Rightarrow> NumericalPoint" where
  "xBase_of e r = (case generateXBase e r of Inl err \<Rightarrow> [] | Inr xBase \<Rightarrow> xBase)"

text \<open>
  Grid mode, as the two levels-based constructors establish it: the steps come from
  the levels, no design is stored, and the interval has one bound pair per level.
\<close>

definition grid_generator :: "nat list \<Rightarrow> MorrisExperiment \<Rightarrow> bool" where
  "grid_generator levels e \<longleftrightarrow>
     compute_step levels = Inr (m_step e) \<and> getSize (m_experiment e) = 0 \<and>
     getDimension (m_interval e) = length levels"

text \<open>
  The loops of \<open>generate\<close> on a run where every access is in range, as folds, and the
  conditions under which the accesses of one column and of one trajectory are in
  range in a support sample of \<open>M\<close> rows.
\<close>

definition column_fold ::
  "MorrisExperiment \<Rightarrow> draws \<Rightarrow> NumericalPoint \<Rightarrow> nat \<Rightarrow> nat \<Rightarrow> real list list \<Rightarrow> real list list" where
  "column_fold e r xBase k p R =
     fold (\<lambda>i R. put R (row_index e k i) p
                    (entry e r xBase (orientation (length (m_step e)) p) i p))
       [0..<length (m_step e) + 1] R"

definition trajectory_fold ::
  "MorrisExperiment \<Rightarrow> draws \<Rightarrow> NumericalPoint \<Rightarrow> nat \<Rightarrow> nat list \<Rightarrow> real list list \<Rightarrow> real list list" where
  "trajectory_fold e r xBase k ps R = fold (column_fold e r xBase k) ps R"

definition writes_in_range ::
  "MorrisExperiment \<Rightarrow> draws \<Rightarrow> NumericalPoint \<Rightarrow> nat \<Rightarrow> nat \<Rightarrow> nat \<Rightarrow> bool" where
  "writes_in_range e r xBase M k p \<longleftrightarrow>
     p < length (m_step e) \<and>
     (\<forall>i < length (m_step e) + 1.
        reads_in_range e r xBase (orientation (length (m_step e)) p) i p \<and>
        row_index e k i < M)"

definition trajectories_fold ::
  "MorrisExperiment \<Rightarrow> (nat \<Rightarrow> draws) \<Rightarrow> nat list \<Rightarrow> real list list \<Rightarrow> real list list" where
  "trajectories_fold e rnd ks R =
     fold (\<lambda>k. trajectory_fold e (rnd k) (xBase_of e (rnd k)) k [0..<length (m_step e)]) ks R"

definition trajectory_in_range ::
  "MorrisExperiment \<Rightarrow> (nat \<Rightarrow> draws) \<Rightarrow> nat \<Rightarrow> nat \<Rightarrow> bool" where
  "trajectory_in_range e rnd M k \<longleftrightarrow>
     (\<exists>xBase. generateXBase e (rnd k) = Inr xBase) \<and>
     (\<forall>p < length (m_step e). writes_in_range e (rnd k) (xBase_of e (rnd k)) M k p)"

subsection \<open>Concrete inputs\<close>

text \<open>
  Random sources. \<open>exact_cast\<close> is the cast of line 204 without rounding; \<open>rounded_cast\<close>
  is the cast as IEEE doubles have it at 100 levels, where \<^verbatim>\<open>1 + 1 / step_[p]\<close> is
  \<open>99.99999999999999\<close> and the cast yields 99. \<open>zero_draw\<close> always draws \<open>0\<close> and
  \<open>last_draw\<close> the largest value \<open>n - 1\<close>. \<open>draws2\<close>, \<open>draws3\<close> and \<open>draws100\<close> serve
  dimension 2, \<open>draws1\<close> dimension 1 and \<open>draws_cube\<close> dimension 3; \<open>rnd_two\<close> gives the
  first trajectory the draws of \<open>draws2\<close> and the others those of \<open>draws3\<close>.

  Generators. \<open>grid2\<close> is what \<^verbatim>\<open>MorrisExperiment([2, 2], 1)\<close> constructs and \<open>grid100\<close>
  what \<^verbatim>\<open>MorrisExperiment([3, 100], 1)\<close> constructs; \<open>grid_box\<close> what
  \<^verbatim>\<open>MorrisExperiment([3, 3], box, 2)\<close> constructs on the box \<open>[2, 8] \<times> [-1, 1]\<close>, and
  \<open>sample_box\<close> the sample it generates from \<open>rnd_two\<close>; \<open>grid_flat\<close> what
  \<^verbatim>\<open>MorrisExperiment([2], flat1, 1)\<close> constructs on the degenerate interval \<open>[0, 0]\<close>;
  \<open>gen_pool_one\<close> and \<open>gen_pool_half\<close> what the pool-only constructor builds from the
  designs \<open>[[1]]\<close> and \<open>[[1/2]]\<close>; \<open>gen_far\<close> what the constructor from a pool and an
  interval builds from the design \<open>[[5]]\<close> and the interval \<open>[2, 8]\<close>; \<open>grid_wrap\<close> and
  \<open>grid_wrap_cube\<close> what \<^verbatim>\<open>MorrisExperiment([2], 2^63)\<close> and
  \<^verbatim>\<open>MorrisExperiment([2, 2, 2], 2^62)\<close> construct. \<open>pool_high\<close> is the design \<open>[[3/2]]\<close>.
\<close>

definition exact_cast :: "real \<Rightarrow> nat" where
  "exact_cast x = nat \<lfloor>x\<rfloor>"

definition zero_draw :: "nat \<Rightarrow> nat \<Rightarrow> nat" where
  "zero_draw c n = 0"

definition last_draw :: "nat \<Rightarrow> nat \<Rightarrow> nat" where
  "last_draw c n = n - 1"

definition draws2 :: draws where
  "draws2 = \<lparr>IntegerGenerate = zero_draw, permutations = [1, 0], directions = [1, 1],
             static_cast = exact_cast\<rparr>"

definition rnd2 :: "nat \<Rightarrow> draws" where
  "rnd2 k = draws2"

definition grid2 :: MorrisExperiment where
  "grid2 = \<lparr>m_interval = Interval_unit 2, m_experiment = NumericalSample_default,
            m_step = [1, 1], m_N = 1\<rparr>"

definition draws3 :: draws where
  "draws3 = \<lparr>IntegerGenerate = last_draw, permutations = [1, 0], directions = [- 1, 1],
             static_cast = exact_cast\<rparr>"

definition rnd_two :: "nat \<Rightarrow> draws" where
  "rnd_two k = (if k = 0 then draws2 else draws3)"

definition box :: Interval where
  "box = \<lparr>lowerBound = [2, - 1], upperBound = [8, 1]\<rparr>"

definition grid_box :: MorrisExperiment where
  "grid_box = \<lparr>m_interval = box, m_experiment = NumericalSample_default,
               m_step = [1 / 2, 1 / 2], m_N = 2\<rparr>"

definition sample_box :: "real list list" where
  "sample_box = [[2, - 1], [5, - 1], [5, 0], [8, 0], [5, 0], [5, 1]]"

definition draws1 :: draws where
  "draws1 = \<lparr>IntegerGenerate = zero_draw, permutations = [0], directions = [1],
             static_cast = exact_cast\<rparr>"

definition rnd1 :: "nat \<Rightarrow> draws" where
  "rnd1 k = draws1"

definition flat1 :: Interval where
  "flat1 = \<lparr>lowerBound = [0], upperBound = [0]\<rparr>"

definition grid_flat :: MorrisExperiment where
  "grid_flat = \<lparr>m_interval = flat1, m_experiment = NumericalSample_default,
                m_step = [1], m_N = 1\<rparr>"



definition pool_high :: NumericalSample where
  "pool_high = \<lparr>dimension = 1, points = [[3 / 2]]\<rparr>"

definition pool_far :: NumericalSample where
  "pool_far = \<lparr>dimension = 1, points = [[5]]\<rparr>"

definition interval_2_8 :: Interval where
  "interval_2_8 = \<lparr>lowerBound = [2], upperBound = [8]\<rparr>"

definition gen_far :: MorrisExperiment where
  "gen_far = \<lparr>m_interval = interval_2_8,
              m_experiment = \<lparr>dimension = 1, points = [[1 / 2]]\<rparr>,
              m_step = [1 / 2], m_N = 1\<rparr>"

definition grid_wrap :: MorrisExperiment where
  "grid_wrap = \<lparr>m_interval = Interval_unit 1, m_experiment = NumericalSample_default,
                m_step = [1], m_N = 2 ^ 63\<rparr>"

definition draws_cube :: draws where
  "draws_cube = \<lparr>IntegerGenerate = zero_draw, permutations = [2, 0, 1],
                 directions = [1, - 1, 1], static_cast = exact_cast\<rparr>"

definition rnd_cube :: "nat \<Rightarrow> draws" where
  "rnd_cube k = draws_cube"

definition grid_wrap_cube :: MorrisExperiment where
  "grid_wrap_cube = \<lparr>m_interval = Interval_unit 3, m_experiment = NumericalSample_default,
                     m_step = [1, 1, 1], m_N = 2 ^ 62\<rparr>"

definition pool_half :: NumericalSample where
  "pool_half = \<lparr>dimension = 1, points = [[1 / 2]]\<rparr>"

definition gen_pool_half :: MorrisExperiment where
  "gen_pool_half = \<lparr>m_interval = Interval_unit 1, m_experiment = pool_half,
                    m_step = [1 / 2], m_N = 1\<rparr>"




section \<open>Properties\<close>

subsection \<open>Sequencing and updates in place\<close>

lemma and_then_Inr: "and_then (Inr x) f = f x"
  by (simp add: and_then_def)

lemma and_then_Inl: "and_then (Inl err) f = Inl err"
  by (simp add: and_then_def)

lemma and_then_eq_Inr:
  "and_then m f = Inr y \<longleftrightarrow> (\<exists>x. m = Inr x \<and> f x = Inr y)"
  by (cases m) (simp_all add: and_then_def)

lemma read_eq_Inr: "read xs i = Inr x \<longleftrightarrow> i < length xs \<and> x = xs ! i"
  by (auto simp add: read_def)

lemma fold_update_length:
  "length (fold (\<lambda>i xs. xs[i := f i]) ps xs) = length xs"
  by (induction ps arbitrary: xs) simp_all

lemma fold_update_upt_nth:
  "q < length xs \<Longrightarrow>
   fold (\<lambda>i xs. xs[i := f i]) [0..<n] xs ! q = (if q < n then f q else xs ! q)"
  by (induction n) (simp_all add: fold_update_length nth_list_update less_Suc_eq)

lemma put_length: "length (put R row p v) = length R"
  by (simp add: put_def)

lemma put_nth:
  "r < length R \<Longrightarrow> put R row p v ! r = (if r = row then (R ! r)[p := v] else R ! r)"
  by (simp add: put_def nth_list_update)

lemma shape_put:
  assumes "shape M d R"
  shows "shape M d (put R row p v)"
proof (cases "row < length R")
  case True
  then show ?thesis
    using assms unfolding shape_def put_def
    by (auto simp add: all_set_conv_all_nth nth_list_update)
next
  case False
  then have "put R row p v = R" by (simp add: put_def list_update_beyond)
  then show ?thesis using assms by simp
qed

lemma shape_fold_put:
  "shape M d R \<Longrightarrow> shape M d (fold (\<lambda>i R. put R (f i) p (g i)) is R)"
  by (induction "is" arbitrary: R) (simp_all add: shape_put)

lemma shape_replicate: "shape M d (replicate M (replicate d 0))"
  by (simp add: shape_def)

lemma realization_eq:
  "realization e r xBase col i p =
     (if reads_in_range e r xBase col i p then Inr (entry e r xBase col i p)
      else Inl OutOfRangeAccess)"
  by (simp add: realization_def reads_in_range_def entry_def read_def and_then_def)

lemma setEntry_eq:
  "shape M d R \<Longrightarrow>
   setEntry R row p v = (if row < M \<and> p < d then Inr (put R row p v) else Inl OutOfRangeAccess)"
  by (auto simp add: setEntry_def put_def shape_def)

lemma fill_column_iff:
  assumes "shape M d R"
  shows "fill_column e r xBase k p col is R = Inr R' \<longleftrightarrow>
           (\<forall>i \<in> set is. reads_in_range e r xBase col i p \<and> row_index e k i < M \<and> p < d) \<and>
           R' = fold (\<lambda>i R. put R (row_index e k i) p (entry e r xBase col i p)) is R"
  using assms
proof (induction "is" arbitrary: R)
  case Nil
  then show ?case by auto
next
  case (Cons i "is")
  have sh: "shape M d (put R (row_index e k i) p (entry e r xBase col i p))"
    using Cons.prems by (rule shape_put)
  show ?case
  proof (cases "reads_in_range e r xBase col i p \<and> row_index e k i < M \<and> p < d")
    case True
    then have "fill_column e r xBase k p col (i # is) R =
        fill_column e r xBase k p col is (put R (row_index e k i) p (entry e r xBase col i p))"
      using setEntry_eq [OF Cons.prems]
      by (simp add: realization_eq and_then_Inr row_index_def)
    then show ?thesis using Cons.IH [OF sh] True by simp
  next
    case False
    then have "\<exists>err. fill_column e r xBase k p col (i # is) R = Inl err"
      using setEntry_eq [OF Cons.prems]
      by (auto simp add: realization_eq and_then_Inr and_then_Inl row_index_def)
    then show ?thesis using False by auto
  qed
qed

subsection \<open>The loops of \<open>generate\<close>\<close>

lemma ball_upt: "(\<forall>i \<in> set [0..<n]. P i) \<longleftrightarrow> (\<forall>i < n. P i)"
  by auto

lemma shape_column_fold: "shape M d R \<Longrightarrow> shape M d (column_fold e r xBase k p R)"
  unfolding column_fold_def by (rule shape_fold_put)

lemma fill_trajectory_iff:
  assumes "shape M (length (m_step e)) R"
  shows "fill_trajectory e r xBase k ps R = Inr R' \<longleftrightarrow>
           (\<forall>p \<in> set ps. writes_in_range e r xBase M k p) \<and>
           R' = trajectory_fold e r xBase k ps R"
  using assms
proof (induction ps arbitrary: R)
  case Nil
  then show ?case by (auto simp add: trajectory_fold_def)
next
  case (Cons p ps)
  let ?d = "length (m_step e)"
  have sh: "shape M ?d (column_fold e r xBase k p R)"
    using Cons.prems by (rule shape_column_fold)
  have col: "fill_column e r xBase k p (orientation ?d p) [0..<?d + 1] R = Inr R1 \<longleftrightarrow>
      (\<forall>i < ?d + 1. reads_in_range e r xBase (orientation ?d p) i p \<and> row_index e k i < M
          \<and> p < ?d) \<and>
      R1 = column_fold e r xBase k p R" for R1
    using fill_column_iff [OF Cons.prems, of e r xBase k p "orientation ?d p" "[0..<?d + 1]" R1]
    by (simp only: ball_upt column_fold_def)
  show ?case
  proof (cases "writes_in_range e r xBase M k p")
    case True
    then have "fill_column e r xBase k p (orientation ?d p) [0..<?d + 1] R
                 = Inr (column_fold e r xBase k p R)"
      using col by (simp add: writes_in_range_def)
    moreover have "getOrientationMatrixColumn e p = Inr (orientation ?d p)"
      using True by (simp add: getOrientationMatrixColumn_def writes_in_range_def)
    ultimately have "fill_trajectory e r xBase k (p # ps) R =
        fill_trajectory e r xBase k ps (column_fold e r xBase k p R)"
      by (simp add: and_then_Inr)
    then show ?thesis
      using Cons.IH [OF sh] True by (simp add: trajectory_fold_def)
  next
    case False
    have "fill_trajectory e r xBase k (p # ps) R \<noteq> Inr R'"
    proof (cases "p < ?d")
      case True
      with False have "\<forall>R1. fill_column e r xBase k p (orientation ?d p) [0..<?d + 1] R \<noteq> Inr R1"
        using col by (auto simp add: writes_in_range_def)
      then show ?thesis
        using True
        by (auto simp add: getOrientationMatrixColumn_def and_then_Inr and_then_eq_Inr)
    next
      case False
      then show ?thesis
        by (simp add: getOrientationMatrixColumn_def and_then_Inl)
    qed
    then show ?thesis using False by auto
  qed
qed

lemma shape_trajectory_fold:
  "shape M d R \<Longrightarrow> shape M d (trajectory_fold e r xBase k ps R)"
  unfolding trajectory_fold_def
  by (induction ps arbitrary: R) (simp_all add: shape_column_fold)

lemma fill_trajectories_iff:
  assumes "shape M (length (m_step e)) R"
  shows "fill_trajectories e rnd ks R = Inr R' \<longleftrightarrow>
           (\<forall>k \<in> set ks. trajectory_in_range e rnd M k) \<and>
           R' = trajectories_fold e rnd ks R"
  using assms
proof (induction ks arbitrary: R)
  case Nil
  then show ?case by (auto simp add: trajectories_fold_def)
next
  case (Cons k ks)
  let ?d = "length (m_step e)"
  let ?x = "xBase_of e (rnd k)"
  have sh: "shape M ?d (trajectory_fold e (rnd k) ?x k [0..<?d] R)"
    using Cons.prems by (rule shape_trajectory_fold)
  have tr: "fill_trajectory e (rnd k) ?x k [0..<?d] R = Inr R1 \<longleftrightarrow>
      (\<forall>p < ?d. writes_in_range e (rnd k) ?x M k p) \<and>
      R1 = trajectory_fold e (rnd k) ?x k [0..<?d] R" for R1
    using fill_trajectory_iff [OF Cons.prems, of "rnd k" ?x k "[0..<?d]" R1]
    by (simp only: ball_upt)
  show ?case
  proof (cases "generateXBase e (rnd k)")
    case (Inl err)
    then show ?thesis by (simp add: and_then_Inl trajectory_in_range_def)
  next
    case (Inr xBase)
    then have x: "?x = xBase" by (simp add: xBase_of_def)
    show ?thesis
    proof (cases "\<forall>p < ?d. writes_in_range e (rnd k) ?x M k p")
      case True
      then have "fill_trajectory e (rnd k) ?x k [0..<?d] R
                   = Inr (trajectory_fold e (rnd k) ?x k [0..<?d] R)"
        using tr by simp
      then have "fill_trajectories e rnd (k # ks) R =
          fill_trajectories e rnd ks (trajectory_fold e (rnd k) ?x k [0..<?d] R)"
        using Inr x by (simp add: and_then_Inr)
      then show ?thesis
        using Cons.IH [OF sh] True Inr
        by (simp add: trajectories_fold_def trajectory_in_range_def)
    next
      case False
      then have "\<forall>R1. fill_trajectory e (rnd k) ?x k [0..<?d] R \<noteq> Inr R1"
        using tr by auto
      then have "fill_trajectories e rnd (k # ks) R \<noteq> Inr R'"
        using Inr x by (auto simp add: and_then_Inr and_then_eq_Inr)
      then show ?thesis using False by (auto simp add: trajectory_in_range_def)
    qed
  qed
qed

lemma generate_iff:
  "generate e rnd = Inr S \<longleftrightarrow>
     (\<forall>k < m_N e. trajectory_in_range e rnd
        (UnsignedInteger (m_N e * (length (m_step e) + 1))) k) \<and>
     S = trajectories_fold e rnd [0..<m_N e]
           (replicate (UnsignedInteger (m_N e * (length (m_step e) + 1)))
              (replicate (length (m_step e)) 0))"
  unfolding generate_def
  by (simp only: fill_trajectories_iff [OF shape_replicate] ball_upt)

lemma rows_length:
  "length (fold (\<lambda>i R. put R (b + i) p (g i)) [0..<n] R) = length R"
  by (induction n) (simp_all add: put_length)

lemma rows_nth:
  "r < length R \<Longrightarrow>
   fold (\<lambda>i R. put R (b + i) p (g i)) [0..<n] R ! r =
     (if b \<le> r \<and> r < b + n then (R ! r)[p := g (r - b)] else R ! r)"
proof (induction n)
  case 0
  then show ?case by auto
next
  case (Suc n)
  have len: "r < length (fold (\<lambda>i R. put R (b + i) p (g i)) [0..<n] R)"
    using Suc.prems by (simp add: rows_length)
  consider (new) "r = b + n" | (old) "b \<le> r" "r < b + n" | (out) "r < b \<or> b + n < r"
    by linarith
  then show ?case
  proof cases
    case new
    then show ?thesis using Suc len by (simp add: put_nth)
  next
    case old
    then show ?thesis using Suc len by (simp add: put_nth)
  next
    case out
    then show ?thesis using Suc len by (auto simp add: put_nth)
  qed
qed

lemma block_length: "length (block b m g n R) = length R"
  by (induction n) (simp_all add: block_def rows_length)

lemma block_Suc: "block b m g (Suc n) R =
      fold (\<lambda>i R. put R (b + i) n (g n i)) [0..<m] (block b m g n R)"
  by (simp add: block_def)

lemma block_nth_out:
  "r < length R \<Longrightarrow> \<not> (b \<le> r \<and> r < b + m) \<Longrightarrow> block b m g n R ! r = R ! r"
proof (induction n)
  case 0
  then show ?case by (simp add: block_def)
next
  case (Suc n)
  then show ?case by (auto simp add: block_Suc rows_nth block_length)
qed

lemma block_nth_in:
  "r < length R \<Longrightarrow> b \<le> r \<Longrightarrow> r < b + m \<Longrightarrow>
   block b m g n R ! r =
     map (\<lambda>q. if q < n then g q (r - b) else R ! r ! q) [0..<length (R ! r)]"
proof (induction n)
  case 0
  then show ?case by (simp add: block_def map_nth)
next
  case (Suc n)
  have "block b m g (Suc n) R ! r = (block b m g n R ! r)[n := g n (r - b)]"
    using Suc.prems by (simp add: block_Suc rows_nth block_length)
  also have "\<dots> = (map (\<lambda>q. if q < n then g q (r - b) else R ! r ! q) [0..<length (R ! r)])
                     [n := g n (r - b)]"
    using Suc by simp
  also have "\<dots> = map (\<lambda>q. if q < Suc n then g q (r - b) else R ! r ! q) [0..<length (R ! r)]"
    by (rule nth_equalityI) (auto simp add: nth_list_update less_Suc_eq)
  finally show ?case .
qed

lemma blocks_length: "length (blocks d g n R) = length R"
  by (induction n) (simp_all add: blocks_def block_length)

lemma blocks_Suc: "blocks d g (Suc n) R =
      block (n * (d + 1)) (d + 1) (g n) d (blocks d g n R)"
  by (simp add: blocks_def)

lemma blocks_nth_out:
  "r < length R \<Longrightarrow> n * (d + 1) \<le> r \<Longrightarrow> blocks d g n R ! r = R ! r"
proof (induction n)
  case 0
  then show ?case by (simp add: blocks_def)
next
  case (Suc n)
  then show ?case by (simp add: blocks_Suc block_nth_out blocks_length)
qed

lemma blocks_nth_in:
  "r < length R \<Longrightarrow> r < n * (d + 1) \<Longrightarrow>
   blocks d g n R ! r =
     map (\<lambda>q. if q < d then g (r div (d + 1)) q (r mod (d + 1)) else R ! r ! q)
       [0..<length (R ! r)]"
proof (induction n)
  case 0
  then show ?case by simp
next
  case (Suc n)
  have len: "r < length (blocks d g n R)" using Suc.prems by (simp add: blocks_length)
  show ?case
  proof (cases "r < n * (d + 1)")
    case True
    then show ?thesis using Suc len by (simp add: blocks_Suc block_nth_out)
  next
    case False
    define j where "j = r - n * (d + 1)"
    have r: "r = n * (d + 1) + j" and j: "j < d + 1"
      using False Suc.prems by (simp_all add: j_def)
    have dv: "r div (d + 1) = n" and md: "r mod (d + 1) = j"
      using j unfolding r by (simp_all del: mult_Suc_right add_Suc_right One_nat_def)
    have old: "blocks d g n R ! r = R ! r"
      using False Suc.prems by (simp add: blocks_nth_out)
    have "blocks d g (Suc n) R ! r =
        map (\<lambda>q. if q < d then g n q (r - n * (d + 1)) else blocks d g n R ! r ! q)
          [0..<length (blocks d g n R ! r)]"
      unfolding blocks_Suc using len False Suc.prems by (intro block_nth_in) simp_all
    then show ?thesis using old dv md by (simp add: j_def)
  qed
qed

lemma UnsignedInteger_small: "n < 2 ^ 64 \<Longrightarrow> UnsignedInteger n = n"
  by (simp add: UnsignedInteger_def)

lemma UnsignedInteger_less: "UnsignedInteger n < 2 ^ 64"
  by (simp add: UnsignedInteger_def)

lemma row_index_eq:
  assumes "N * (length (m_step e) + 1) < 2 ^ 64" and "k < N" and "i < length (m_step e) + 1"
  shows "row_index e k i = k * (length (m_step e) + 1) + i"
    and "row_index e k i < N * (length (m_step e) + 1)"
proof -
  let ?d = "length (m_step e)"
  have "Suc k * (?d + 1) \<le> N * (?d + 1)"
    using assms(2) by (intro mult_le_mono1) simp
  then have lt: "k * (?d + 1) + i < N * (?d + 1)" using assms(3) by simp
  then have "k * (?d + 1) + i < 2 ^ 64" using assms(1) by simp
  then show "row_index e k i = k * (?d + 1) + i"
    unfolding row_index_def by (rule UnsignedInteger_small)
  then show "row_index e k i < N * (?d + 1)" using lt by simp
qed

lemma trajectories_fold_blocks:
  assumes "m_N e * (length (m_step e) + 1) < 2 ^ 64"
  shows "trajectories_fold e rnd [0..<m_N e] R =
           blocks (length (m_step e))
             (\<lambda>k p i. entry e (rnd k) (xBase_of e (rnd k)) (orientation (length (m_step e)) p) i p)
             (m_N e) R"
proof -
  let ?d = "length (m_step e)"
  have col: "column_fold e (rnd k) (xBase_of e (rnd k)) k p =
      (\<lambda>R. fold (\<lambda>i R. put R (k * (?d + 1) + i) p
              (entry e (rnd k) (xBase_of e (rnd k)) (orientation ?d p) i p)) [0..<?d + 1] R)"
    if "k < m_N e" for k p
  proof
    fix R
    show "column_fold e (rnd k) (xBase_of e (rnd k)) k p R =
      fold (\<lambda>i R. put R (k * (?d + 1) + i) p
              (entry e (rnd k) (xBase_of e (rnd k)) (orientation ?d p) i p)) [0..<?d + 1] R"
      unfolding column_fold_def
      using row_index_eq(1) [OF assms that]
      by (intro fold_cong) (simp_all del: upt_Suc)
  qed
  have tr: "trajectory_fold e (rnd k) (xBase_of e (rnd k)) k [0..<?d] =
      block (k * (?d + 1)) (?d + 1)
        (\<lambda>p i. entry e (rnd k) (xBase_of e (rnd k)) (orientation ?d p) i p) ?d"
    if "k < m_N e" for k
    unfolding trajectory_fold_def block_def col [OF that] by (rule ext) simp
  show ?thesis
    unfolding trajectories_fold_def blocks_def
    by (intro fold_cong) (simp_all add: tr)
qed

lemma shape_trajectories_fold:
  "shape M (length (m_step e)) R \<Longrightarrow> shape M (length (m_step e)) (trajectories_fold e rnd ks R)"
  unfolding trajectories_fold_def
  by (induction ks arbitrary: R) (simp_all add: shape_trajectory_fold)

lemma generate_shape:
  assumes "generate e rnd = Inr S"
  shows "shape (UnsignedInteger (m_N e * (length (m_step e) + 1))) (length (m_step e)) S"
proof -
  have "S = trajectories_fold e rnd [0..<m_N e]
           (replicate (UnsignedInteger (m_N e * (length (m_step e) + 1)))
              (replicate (length (m_step e)) 0))"
    using assms by (simp only: generate_iff)
  then show ?thesis
    by (simp only: shape_trajectories_fold [OF shape_replicate])
qed

text \<open>Where the 64-bit row count wraps, some write falls outside the sample.\<close>

lemma generate_no_wrap:
  assumes "generate e rnd = Inr S" and "0 < length (m_step e)"
  shows "m_N e * (length (m_step e) + 1) < 2 ^ 64"
proof (rule ccontr)
  let ?d = "length (m_step e)"
  let ?M = "UnsignedInteger (m_N e * (?d + 1))"
  assume "\<not> m_N e * (?d + 1) < 2 ^ 64"
  then have big: "2 ^ 64 \<le> m_N e * (?d + 1)" by simp
  have M: "?M < 2 ^ 64" by (rule UnsignedInteger_less)
  define k where "k = ?M div (?d + 1)"
  define i where "i = ?M mod (?d + 1)"
  have "?M < m_N e * (?d + 1)" using M big by linarith
  then have k: "k < m_N e" unfolding k_def by (simp add: less_mult_imp_div_less)
  have i: "i < ?d + 1" unfolding i_def by simp
  have "k * (?d + 1) + i = ?M" unfolding k_def i_def by (rule div_mult_mod_eq)
  then have idx: "row_index e k i = ?M"
    using M by (simp only: row_index_def UnsignedInteger_small)
  have "trajectory_in_range e rnd ?M k"
    using assms(1) k by (simp only: generate_iff)
  then have "writes_in_range e (rnd k) (xBase_of e (rnd k)) ?M k 0"
    using assms(2) by (simp add: trajectory_in_range_def)
  then have "row_index e k i < ?M"
    using i by (simp only: writes_in_range_def)
  then show False using idx by simp
qed

lemma generate_blocks:
  assumes "generate e rnd = Inr S" and "m_N e * (length (m_step e) + 1) < 2 ^ 64"
  shows "S = blocks (length (m_step e))
             (\<lambda>k p i. entry e (rnd k) (xBase_of e (rnd k)) (orientation (length (m_step e)) p) i p)
             (m_N e)
             (replicate (m_N e * (length (m_step e) + 1)) (replicate (length (m_step e)) 0))"
proof -
  have "S = trajectories_fold e rnd [0..<m_N e]
           (replicate (UnsignedInteger (m_N e * (length (m_step e) + 1)))
              (replicate (length (m_step e)) 0))"
    using assms(1) by (simp only: generate_iff)
  then show ?thesis
    by (simp only: trajectories_fold_blocks [OF assms(2)] UnsignedInteger_small [OF assms(2)])
qed

lemma generate_row:
  assumes "generate e rnd = Inr S" and "m_N e * (length (m_step e) + 1) < 2 ^ 64"
    and "k < m_N e" and "i < length (m_step e) + 1"
  shows "S ! (k * (length (m_step e) + 1) + i) =
           map (\<lambda>p. entry e (rnd k) (xBase_of e (rnd k)) (orientation (length (m_step e)) p) i p)
             [0..<length (m_step e)]"
proof -
  let ?d = "length (m_step e)"
  let ?r = "k * (?d + 1) + i"
  have "Suc k * (?d + 1) \<le> m_N e * (?d + 1)"
    using assms(3) by (intro mult_le_mono1) simp
  then have r: "?r < m_N e * (?d + 1)" using assms(4) by simp
  have dv: "?r div (?d + 1) = k" and md: "?r mod (?d + 1) = i"
    using assms(4) by (simp_all del: mult_Suc_right add_Suc_right One_nat_def)
  show ?thesis
    unfolding generate_blocks [OF assms(1,2)] using r dv md
    by (subst blocks_nth_in) (simp_all del: mult_Suc_right add_Suc_right One_nat_def)
qed

lemma orientation_length: "length (orientation d p) = d + 1"
  by (simp add: orientation_def fold_update_length)

lemma orientation_nth:
  "i < d + 1 \<Longrightarrow> orientation d p ! i = (if i \<le> p then - 1 else 1)"
  unfolding orientation_def
  by (subst fold_update_upt_nth) (auto simp add: less_Suc_eq_le)

lemma generate_entry:
  assumes "generate e rnd = Inr S" and "k < m_N e"
    and "i < length (m_step e) + 1" and "p < length (m_step e)"
  shows "S ! (k * (length (m_step e) + 1) + i) ! p =
           delta e ! p *
             (((if i \<le> p then - 1 else 1) * directions (rnd k) ! p + 1) * 0.5 * m_step e ! p
              + xBase_of e (rnd k) ! p)
           + lowerBound (m_interval e) ! p"
proof -
  have "0 < length (m_step e)" using assms(4) by (cases "m_step e") simp_all
  then have bound: "m_N e * (length (m_step e) + 1) < 2 ^ 64"
    using assms(1) by (intro generate_no_wrap)
  show ?thesis
    unfolding generate_row [OF assms(1) bound assms(2,3)]
    using assms(3,4) by (simp add: entry_def orientation_nth)
qed

subsection \<open>The constructors\<close>

lemma compute_step_Inr:
  "compute_step levels = Inr st \<Longrightarrow>
   length st = length levels \<and>
   (\<forall>k < length levels. 2 \<le> levels ! k \<and> st ! k = 1 / (real (levels ! k) - 1))"
proof (induction levels arbitrary: st)
  case Nil
  then show ?case by simp
next
  case (Cons l ls)
  from Cons.prems obtain st' where l: "\<not> l \<le> 1" and st': "compute_step ls = Inr st'"
    and st: "st = 1 / (real l - 1) # st'"
    by (auto split: if_splits sum.splits)
  from Cons.IH [OF st'] show ?case
    using l st by (auto simp add: nth_Cons split: nat.splits)
qed

lemma compute_step_Inl:
  "compute_step levels = Inl err \<longleftrightarrow>
   err = InvalidArgumentException InvalidConfiguration \<and> (\<exists>l \<in> set levels. l \<le> 1)"
  by (induction levels) (auto split: sum.splits)

lemma compute_step_cases:
  "(\<exists>st. compute_step levels = Inr st) \<or>
   compute_step levels = Inl (InvalidArgumentException InvalidConfiguration)"
  by (cases "compute_step levels") (auto simp add: compute_step_Inl)

lemma compute_step_positive:
  assumes "compute_step levels = Inr st" and "p < length levels"
  shows "0 < st ! p"
proof -
  have "2 \<le> levels ! p" and "st ! p = 1 / (real (levels ! p) - 1)"
    using compute_step_Inr [OF assms(1)] assms(2) by simp_all
  then show ?thesis by simp
qed

lemma MorrisExperiment_lhs_Inr:
  assumes "MorrisExperiment_lhs lhsDesign N = Inr e"
  shows "0 < getSize lhsDesign"
    and "e = \<lparr>m_interval = Interval_unit (dimension lhsDesign), m_experiment = lhsDesign,
              m_step = replicate (dimension lhsDesign) (0.5 / real (getSize lhsDesign)),
              m_N = N\<rparr>"
  using assms
  by (auto simp add: MorrisExperiment_lhs_def getMin_def getMax_def
        split: sum.splits if_splits)

lemma MorrisExperiment_lhs_interval_Inr:
  assumes "MorrisExperiment_lhs_interval lhsDesign interval N = Inr e"
  shows "dimension lhsDesign = getDimension interval"
    and "e = \<lparr>m_interval = interval,
              m_experiment = sample_divide (sample_minus lhsDesign (lowerBound interval))
                    (point_minus (upperBound interval) (lowerBound interval)),
              m_step = replicate (dimension lhsDesign) (0.5 / real (getSize lhsDesign)),
              m_N = N\<rparr>"
  using assms
  by (auto simp add: MorrisExperiment_lhs_interval_def split: if_splits)

lemma grid_generator_levels:
  "MorrisExperiment_levels levels N = Inr e \<Longrightarrow> grid_generator levels e"
  by (auto simp add: MorrisExperiment_levels_def grid_generator_def getSize_def
        NumericalSample_default_def Interval_unit_def getDimension_def split: sum.splits)

lemma grid_generator_levels_interval:
  "MorrisExperiment_levels_interval levels interval N = Inr e \<Longrightarrow> grid_generator levels e"
  by (auto simp add: MorrisExperiment_levels_interval_def grid_generator_def getSize_def
        NumericalSample_default_def split: sum.splits if_splits)

lemma fold_min_Min: "c \<noteq> [] \<Longrightarrow> fold min (tl c) (hd c) = Min (set c)"
proof (cases c)
  case Nil
  assume "c \<noteq> []"
  with Nil show ?thesis by simp
next
  case (Cons a as)
  then show ?thesis using Min.set_eq_fold [of a as] by simp
qed

lemma fold_max_Max: "c \<noteq> [] \<Longrightarrow> fold max (tl c) (hd c) = Max (set c)"
proof (cases c)
  case Nil
  assume "c \<noteq> []"
  with Nil show ?thesis by simp
next
  case (Cons a as)
  then show ?thesis using Max.set_eq_fold [of a as] by simp
qed

lemma getMin_nth:
  assumes "points s \<noteq> []" and "getMin s = Inr xMin" and "k < dimension s"
  shows "xMin ! k < 0 \<longleftrightarrow> (\<exists>pt \<in> set (points s). pt ! k < 0)"
proof -
  have c: "component s k \<noteq> []" using assms(1) by (simp add: component_def)
  have xMin: "xMin ! k = Min (set (component s k))"
    using assms c by (auto simp add: getMin_def getSize_def fold_min_Min)
  have "Min (set (component s k)) < 0 \<longleftrightarrow> (\<exists>x \<in> set (component s k). x < 0)"
    using c by (intro Min_less_iff) simp_all
  then show ?thesis unfolding xMin by (simp add: component_def)
qed

lemma getMax_nth:
  assumes "points s \<noteq> []" and "getMax s = Inr xMax" and "k < dimension s"
  shows "1 < xMax ! k \<longleftrightarrow> (\<exists>pt \<in> set (points s). 1 < pt ! k)"
proof -
  have c: "component s k \<noteq> []" using assms(1) by (simp add: component_def)
  have xMax: "xMax ! k = Max (set (component s k))"
    using assms c by (auto simp add: getMax_def getSize_def fold_max_Max)
  have "1 < Max (set (component s k)) \<longleftrightarrow> (\<exists>x \<in> set (component s k). 1 < x)"
    using c by (intro Max_gr_iff) simp_all
  then show ?thesis unfolding xMax by (simp add: component_def)
qed

lemma outside_unit_cube_iff:
  assumes "wf_Sample s" and "points s \<noteq> []"
    and "getMin s = Inr xMin" and "getMax s = Inr xMax"
  shows "outside_unit_cube xMin xMax \<longleftrightarrow>
           (\<exists>pt \<in> set (points s). \<exists>c \<in> set pt. c < 0 \<or> 1 < c)"
proof
  have len: "length xMax = dimension s"
    using assms(2,4) by (auto simp add: getMax_def getSize_def split: if_splits)
  have wf: "length pt = dimension s" if "pt \<in> set (points s)" for pt
    using assms(1) that by (simp add: wf_Sample_def)
  {
    assume "outside_unit_cube xMin xMax"
    then obtain k where k: "k < dimension s" and "xMin ! k < 0 \<or> 1 < xMax ! k"
      by (auto simp add: outside_unit_cube_def list_ex_iff len)
    then obtain pt where pt: "pt \<in> set (points s)" and out: "pt ! k < 0 \<or> 1 < pt ! k"
      using getMin_nth [OF assms(2,3) k] getMax_nth [OF assms(2,4) k] by blast
    have "pt ! k \<in> set pt" using wf [OF pt] k by simp
    then show "\<exists>pt \<in> set (points s). \<exists>c \<in> set pt. c < 0 \<or> 1 < c"
      using pt out by blast
  }
  {
    assume "\<exists>pt \<in> set (points s). \<exists>c \<in> set pt. c < 0 \<or> 1 < c"
    then obtain pt c where pt: "pt \<in> set (points s)" and c: "c \<in> set pt"
      and out: "c < 0 \<or> 1 < c"
      by blast
    from c obtain k where k: "k < length pt" and ck: "c = pt ! k"
      by (auto simp add: in_set_conv_nth)
    have kd: "k < dimension s" using k wf [OF pt] by simp
    have "xMin ! k < 0 \<or> 1 < xMax ! k"
      using getMin_nth [OF assms(2,3) kd] getMax_nth [OF assms(2,4) kd] pt out ck by blast
    then show "outside_unit_cube xMin xMax"
      using kd by (auto simp add: outside_unit_cube_def list_ex_iff len)
  }
qed

lemma renormalized_nth:
  assumes "MorrisExperiment_lhs_interval lhsDesign interval N = Inr e"
    and "wf_Sample lhsDesign" and "wf_Interval interval"
    and "j < getSize lhsDesign" and "k < dimension lhsDesign"
  shows "points (m_experiment e) ! j ! k =
           (points lhsDesign ! j ! k - lowerBound interval ! k)
             / (upperBound interval ! k - lowerBound interval ! k)"
    and "length (points (m_experiment e) ! j) = dimension lhsDesign"
proof -
  have dim: "dimension lhsDesign = length (lowerBound interval)"
    and e: "m_experiment e = sample_divide (sample_minus lhsDesign (lowerBound interval))
                    (point_minus (upperBound interval) (lowerBound interval))"
    using assms(1) by (auto simp add: MorrisExperiment_lhs_interval_def getDimension_def split: if_splits)
  have up: "length (upperBound interval) = length (lowerBound interval)"
    using assms(3) by (simp add: wf_Interval_def)
  have pt: "length (points lhsDesign ! j) = dimension lhsDesign"
    using assms(2,4) by (simp add: wf_Sample_def getSize_def)
  show "points (m_experiment e) ! j ! k =
           (points lhsDesign ! j ! k - lowerBound interval ! k)
             / (upperBound interval ! k - lowerBound interval ! k)"
    using assms(4,5) dim up pt
    by (simp add: e sample_divide_def sample_minus_def point_minus_def getSize_def)
  show "length (points (m_experiment e) ! j) = dimension lhsDesign"
    using assms(4) dim up pt
    by (simp add: e sample_divide_def sample_minus_def point_minus_def getSize_def)
qed

lemma renormalized_size:
  "MorrisExperiment_lhs_interval lhsDesign interval N = Inr e \<Longrightarrow>
   getSize (m_experiment e) = getSize lhsDesign"
  by (auto simp add: MorrisExperiment_lhs_interval_def sample_divide_def sample_minus_def
        getSize_def split: if_splits)

subsection \<open>Constructed generators\<close>

lemma constructed_shape:
  assumes "constructed pool e"
  shows "length (lowerBound (m_interval e)) = length (m_step e)"
    and "length (upperBound (m_interval e)) = length (m_step e)"
    and "\<forall>pt \<in> set (points (m_experiment e)). length pt = length (m_step e)"
    and "pool = None \<longrightarrow> (\<exists>levels. grid_generator levels e)"
    and "\<forall>lhsDesign. pool = Some lhsDesign \<longrightarrow>
           getSize (m_experiment e) = getSize lhsDesign \<and>
           m_step e = replicate (dimension lhsDesign) (0.5 / real (getSize lhsDesign))"
  using assms
proof (induction rule: constructed.induct)
  case (from_levels levels N e)
  then have g: "grid_generator levels e" by (rule grid_generator_levels)
  then have cs: "compute_step levels = Inr (m_step e)" by (simp add: grid_generator_def)
  have len: "length (m_step e) = length levels" using compute_step_Inr [OF cs] by simp
  have iv: "m_interval e = Interval_unit (length levels)"
    and ex: "m_experiment e = NumericalSample_default"
    using from_levels by (auto simp add: MorrisExperiment_levels_def split: sum.splits)
  {
    case 1 show ?case by (simp add: iv len Interval_unit_def)
  next
    case 2 show ?case by (simp add: iv len Interval_unit_def)
  next
    case 3 show ?case by (simp add: ex NumericalSample_default_def)
  next
    case 4 show ?case using g by blast
  next
    case 5 show ?case by simp
  }
next
  case (from_levels_interval interval levels N e)
  from from_levels_interval(2) have g: "grid_generator levels e"
    by (rule grid_generator_levels_interval)
  then have cs: "compute_step levels = Inr (m_step e)"
    and dim: "getDimension (m_interval e) = length levels"
    by (simp_all add: grid_generator_def)
  have len: "length (m_step e) = length levels" using compute_step_Inr [OF cs] by simp
  have iv: "m_interval e = interval"
    and ex: "m_experiment e = NumericalSample_default"
    using from_levels_interval(2)
    by (auto simp add: MorrisExperiment_levels_interval_def split: sum.splits if_splits)
  {
    case 1 show ?case using dim by (simp add: len getDimension_def)
  next
    case 2 show ?case using dim from_levels_interval(1)
      by (simp add: len getDimension_def iv wf_Interval_def)
  next
    case 3 show ?case by (simp add: ex NumericalSample_default_def)
  next
    case 4 show ?case using g by blast
  next
    case 5 show ?case by simp
  }
next
  case (from_lhs lhsDesign N e)
  note e = MorrisExperiment_lhs_Inr [OF from_lhs(2)]
  {
    case 1 show ?case by (simp add: e(2) Interval_unit_def)
  next
    case 2 show ?case by (simp add: e(2) Interval_unit_def)
  next
    case 3 show ?case using from_lhs(1) by (simp add: e(2) wf_Sample_def)
  next
    case 4 show ?case by simp
  next
    case 5 show ?case by (simp add: e(2))
  }
next
  case (from_lhs_interval lhsDesign interval N e)
  note e = MorrisExperiment_lhs_interval_Inr [OF from_lhs_interval(3)]
  have up: "length (upperBound interval) = length (lowerBound interval)"
    using from_lhs_interval(2) by (simp add: wf_Interval_def)
  have lo: "length (lowerBound interval) = dimension lhsDesign"
    using e(1) by (simp add: getDimension_def)
  {
    case 1 show ?case by (simp add: e(2) lo)
  next
    case 2 show ?case by (simp add: e(2) lo up)
  next
    case 3 show ?case using from_lhs_interval(1)
      by (auto simp add: e(2) wf_Sample_def sample_divide_def sample_minus_def
            point_minus_def lo up)
  next
    case 4 show ?case by simp
  next
    case 5 show ?case
      by (simp add: e(2) sample_divide_def sample_minus_def getSize_def)
  }
qed

lemma constructed_step_positive:
  assumes "constructed pool e" and "pool_not_empty pool" and "p < length (m_step e)"
  shows "0 < m_step e ! p"
proof (cases pool)
  case None
  then obtain levels where g: "grid_generator levels e"
    using constructed_shape(4) [OF assms(1)] by blast
  then have cs: "compute_step levels = Inr (m_step e)" by (simp add: grid_generator_def)
  have "length (m_step e) = length levels" using compute_step_Inr [OF cs] by simp
  then show ?thesis using compute_step_positive [OF cs] assms(3) by simp
next
  case (Some lhsDesign)
  then have "m_step e = replicate (dimension lhsDesign) (0.5 / real (getSize lhsDesign))"
    using constructed_shape(5) [OF assms(1)] by simp
  moreover have "0 < getSize lhsDesign" using assms(2) Some by simp
  ultimately show ?thesis using assms(3) by simp
qed

lemma constructed_delta:
  assumes "constructed pool e" and "p < length (m_step e)"
  shows "length (delta e) = length (m_step e)"
    and "delta e ! p = upperBound (m_interval e) ! p - lowerBound (m_interval e) ! p"
  using constructed_shape(1,2) [OF assms(1)] assms(2)
  by (simp_all add: delta_def point_minus_def)

lemma grid_fold_length:
  "length (fold (\<lambda>p x. x[p := f p]) ps x) = length x"
  by (induction ps arbitrary: x) simp_all

lemma grid_loop_iff:
  "grid_loop e r ps x = Inr x' \<longleftrightarrow>
     (\<forall>p \<in> set ps. p < length (m_step e)) \<and>
     x' = fold (\<lambda>p x. x[p := grid_value e r p]) ps x"
proof (induction ps arbitrary: x)
  case Nil
  then show ?case by auto
next
  case (Cons p ps)
  show ?case
  proof (cases "p < length (m_step e)")
    case True
    then show ?thesis
      using Cons.IH by (simp add: read_def and_then_Inr grid_value_def)
  next
    case False
    then show ?thesis by (simp add: read_def and_then_Inl)
  qed
qed

lemma generateXBaseFromGrid_Inr:
  assumes "getDimension (m_interval e) = length (m_step e)"
  shows "generateXBaseFromGrid e r =
           Inr (fold (\<lambda>p x. x[p := grid_value e r p]) [0..<length (m_step e)]
                  (replicate (length (m_step e)) 0))"
  unfolding generateXBaseFromGrid_def assms
  by (simp only: grid_loop_iff ball_upt) simp


text \<open>The base point of a trajectory exists and has the dimension of the steps.\<close>

lemma generateXBase_Inr:
  assumes "constructed pool e" and "admissible (length (m_step e)) r"
  shows "\<exists>x. generateXBase e r = Inr x \<and> length x = length (m_step e)"
proof (cases "getSize (m_experiment e) = 0")
  case True
  have dim: "getDimension (m_interval e) = length (m_step e)"
    using constructed_shape(1) [OF assms(1)] by (simp add: getDimension_def)
  show ?thesis
    using True generateXBaseFromGrid_Inr [OF dim, of r]
    by (simp add: generateXBase_def grid_fold_length)
next
  case False
  then have size: "0 < getSize (m_experiment e)" by simp
  then have idx: "IntegerGenerate r 0 (getSize (m_experiment e)) < length (points (m_experiment e))"
    using assms(2) by (simp add: admissible_def getSize_def)
  then have "points (m_experiment e) ! IntegerGenerate r 0 (getSize (m_experiment e))
               \<in> set (points (m_experiment e))"
    by simp
  then have "length (points (m_experiment e) ! IntegerGenerate r 0 (getSize (m_experiment e)))
               = length (m_step e)"
    using constructed_shape(3) [OF assms(1)] by blast
  then show ?thesis
    using size idx by (simp add: generateXBase_def generateXBaseFromLHS_def read_def)
qed

lemma trajectory_in_range_constructed:
  assumes "constructed pool e" and "admissible (length (m_step e)) (rnd k)"
    and "m_N e * (length (m_step e) + 1) < 2 ^ 64" and "k < m_N e"
  shows "trajectory_in_range e rnd (UnsignedInteger (m_N e * (length (m_step e) + 1))) k"
proof -
  let ?d = "length (m_step e)"
  obtain x where x: "generateXBase e (rnd k) = Inr x" and lx: "length x = ?d"
    using generateXBase_Inr [OF assms(1,2)] by blast
  then have xo: "xBase_of e (rnd k) = x" by (simp add: xBase_of_def)
  have dirs: "length (directions (rnd k)) = ?d" using assms(2) by (simp add: admissible_def)
  have "writes_in_range e (rnd k) x (m_N e * (?d + 1)) k p" if p: "p < ?d" for p
    unfolding writes_in_range_def reads_in_range_def
    using p lx dirs constructed_delta(1) [OF assms(1) p] constructed_shape(1) [OF assms(1)]
      row_index_eq(2) [OF assms(3,4)]
    by (simp add: orientation_length)
  then show ?thesis
    unfolding trajectory_in_range_def xo UnsignedInteger_small [OF assms(3)]
    using x by simp
qed

lemma generate_succeeds:
  assumes "constructed pool e" and "\<forall>k < m_N e. admissible (length (m_step e)) (rnd k)"
    and "m_N e * (length (m_step e) + 1) < 2 ^ 64"
  shows "\<exists>S. generate e rnd = Inr S"
  using trajectory_in_range_constructed [OF assms(1) _ assms(3)] assms(2)
  by (simp only: generate_iff) blast

lemma generate_length:
  assumes "generate e rnd = Inr S" and "m_N e * (length (m_step e) + 1) < 2 ^ 64"
  shows "length S = m_N e * (length (m_step e) + 1)"
    and "\<forall>row \<in> set S. length row = length (m_step e)"
  using generate_shape [OF assms(1)] UnsignedInteger_small [OF assms(2)]
  by (simp_all add: shape_def)

lemma direction_values:
  assumes "admissible d r" and "p < d"
  shows "directions r ! p = 1 \<or> directions r ! p = - 1"
proof -
  have "directions r ! p \<in> set (directions r)"
    using assms by (simp add: admissible_def)
  then show ?thesis using assms(1) by (auto simp add: admissible_def)
qed

text \<open>The first point of a trajectory and the points that follow it.\<close>

lemma trajectory_start:
  assumes "constructed pool e" and "admissible (length (m_step e)) (rnd k)"
    and "generate e rnd = Inr S" and "k < m_N e" and "p < length (m_step e)"
  shows "S ! (k * (length (m_step e) + 1)) ! p =
           (upperBound (m_interval e) ! p - lowerBound (m_interval e) ! p) *
             (xBase_of e (rnd k) ! p + (if directions (rnd k) ! p = 1 then 0 else m_step e ! p))
           + lowerBound (m_interval e) ! p"
proof -
  have "S ! (k * (length (m_step e) + 1) + 0) ! p =
           delta e ! p *
             (((if 0 \<le> p then - 1 else 1) * directions (rnd k) ! p + 1) * 0.5 * m_step e ! p
              + xBase_of e (rnd k) ! p)
           + lowerBound (m_interval e) ! p"
    using assms(3,4) _ assms(5) by (rule generate_entry) simp
  then show ?thesis
    using direction_values [OF assms(2,5)] constructed_delta(2) [OF assms(1,5)]
    by auto
qed

lemma trajectory_walk:
  assumes "constructed pool e" and "admissible (length (m_step e)) (rnd k)"
    and "generate e rnd = Inr S" and "k < m_N e"
    and "i < length (m_step e) + 1" and "p < length (m_step e)"
  shows "S ! (k * (length (m_step e) + 1) + i) ! p =
           S ! (k * (length (m_step e) + 1)) ! p +
             (if p < i
              then directions (rnd k) ! p *
                     (upperBound (m_interval e) ! p - lowerBound (m_interval e) ! p) *
                     m_step e ! p
              else 0)"
proof -
  have a: "S ! (k * (length (m_step e) + 1) + i) ! p =
           delta e ! p *
             (((if i \<le> p then - 1 else 1) * directions (rnd k) ! p + 1) * 0.5 * m_step e ! p
              + xBase_of e (rnd k) ! p)
           + lowerBound (m_interval e) ! p"
    using assms(3,4,5,6) by (rule generate_entry)
  have "S ! (k * (length (m_step e) + 1) + 0) ! p =
           delta e ! p *
             (((if 0 \<le> p then - 1 else 1) * directions (rnd k) ! p + 1) * 0.5 * m_step e ! p
              + xBase_of e (rnd k) ! p)
           + lowerBound (m_interval e) ! p"
    using assms(3,4) _ assms(6) by (rule generate_entry) simp
  then have b: "S ! (k * (length (m_step e) + 1)) ! p =
           delta e ! p *
             ((- directions (rnd k) ! p + 1) * 0.5 * m_step e ! p + xBase_of e (rnd k) ! p)
           + lowerBound (m_interval e) ! p"
    by simp
  show ?thesis
    unfolding a b constructed_delta(2) [OF assms(1,6), symmetric]
    by (simp add: algebra_simps not_le)
qed






subsection \<open>The concrete inputs\<close>

lemma grid2_constructed: "MorrisExperiment_levels [2, 2] 1 = Inr grid2"
  by (simp add: MorrisExperiment_levels_def grid2_def Interval_unit_def numeral_2_eq_2)

lemma UnsignedInteger_row: "n < 100 \<Longrightarrow> UnsignedInteger n = n"
proof -
  assume "n < 100"
  moreover have "(100::nat) < 2 ^ 64" by simp
  ultimately have "n < 2 ^ 64" by (rule less_trans)
  then show ?thesis by (rule UnsignedInteger_small)
qed

lemma replicate_rows: "replicate (numeral n) x = x # replicate (pred_numeral n) x"
  by (simp add: numeral_eq_Suc)

lemmas generate_eval =
  generate_def generateXBase_def generateXBaseFromGrid_def generateXBaseFromLHS_def
  getSize_def NumericalSample_default_def Interval_unit_def getDimension_def level_def
  minus_one_def zero_draw_def last_draw_def exact_cast_def
  getOrientationMatrixColumn_def orientation_def setEntry_def read_def and_then_def
  realization_def delta_def point_minus_def upt_rec
  UnsignedInteger_row replicate_rows

lemma generate_grid2: "generate grid2 rnd2 = Inr [[0, 0], [1, 0], [1, 1]]"
  by (simp add: generate_eval grid2_def rnd2_def draws2_def)

lemma grid_box_constructed: "MorrisExperiment_levels_interval [3, 3] box 2 = Inr grid_box"
  by (simp add: MorrisExperiment_levels_interval_def grid_box_def box_def getDimension_def)

lemma generate_grid_box: "generate grid_box rnd_two = Inr sample_box"
  by (simp add: generate_eval grid_box_def box_def rnd_two_def draws2_def draws3_def
        sample_box_def)

lemma exact_cast_contract:
  "2 \<le> n \<and> n \<le> 2 ^ 32 \<longrightarrow> 2 \<le> exact_cast (real n) \<and> exact_cast (real n) \<le> n"
  by (simp add: exact_cast_def)

lemma admissible_draws2: "admissible 2 draws2"
  using exact_cast_contract by (simp add: admissible_def draws2_def zero_draw_def)

lemma admissible_draws3: "admissible 2 draws3"
  using exact_cast_contract by (auto simp add: admissible_def draws3_def last_draw_def)

lemma admissible_draws1: "admissible 1 draws1"
  using exact_cast_contract by (simp add: admissible_def draws1_def zero_draw_def)

lemma admissible_draws_cube: "admissible 3 draws_cube"
  using exact_cast_contract by (auto simp add: admissible_def draws_cube_def zero_draw_def)

lemma grid_flat_constructed: "MorrisExperiment_levels_interval [2] flat1 1 = Inr grid_flat"
  by (simp add: MorrisExperiment_levels_interval_def grid_flat_def flat1_def getDimension_def)

lemma generate_grid_flat: "generate grid_flat rnd1 = Inr [[0], [0]]"
  by (simp add: generate_eval grid_flat_def flat1_def rnd1_def draws1_def)



lemma gen_far_constructed: "MorrisExperiment_lhs_interval pool_far interval_2_8 1 = Inr gen_far"
  by (simp add: MorrisExperiment_lhs_interval_def getDimension_def getSize_def
        sample_divide_def sample_minus_def point_minus_def
        pool_far_def interval_2_8_def gen_far_def)


lemma grid_wrap_constructed: "MorrisExperiment_levels [2] (2 ^ 63) = Inr grid_wrap"
  by (simp add: MorrisExperiment_levels_def grid_wrap_def Interval_unit_def)

lemma generate_grid_wrap: "generate grid_wrap rnd1 = Inl OutOfRangeAccess"
proof -
  have rows: "UnsignedInteger (m_N grid_wrap * (length (m_step grid_wrap) + 1)) = 0"
    by (simp add: UnsignedInteger_def grid_wrap_def)
  have ks: "[0..<m_N grid_wrap] = 0 # [Suc 0..<m_N grid_wrap]"
    by (rule upt_conv_Cons) (simp add: grid_wrap_def)
  have x: "generateXBase grid_wrap (rnd1 0) = Inr [0]"
    by (simp add: generate_eval grid_wrap_def rnd1_def draws1_def)
  have t: "fill_trajectory grid_wrap (rnd1 0) [0] 0 [0..<length (m_step grid_wrap)] []
             = Inl OutOfRangeAccess"
    by (simp add: generate_eval grid_wrap_def rnd1_def draws1_def)
  show ?thesis
    unfolding generate_def rows ks by (simp add: x t and_then_def)
qed

lemma grid_wrap_cube_constructed:
  "MorrisExperiment_levels [2, 2, 2] (2 ^ 62) = Inr grid_wrap_cube"
  by (simp add: MorrisExperiment_levels_def grid_wrap_cube_def Interval_unit_def
        numeral_3_eq_3)

lemma generate_grid_wrap_cube: "generate grid_wrap_cube rnd_cube = Inl OutOfRangeAccess"
proof -
  have rows: "UnsignedInteger (m_N grid_wrap_cube * (length (m_step grid_wrap_cube) + 1)) = 0"
    by (simp add: UnsignedInteger_def grid_wrap_cube_def)
  have ks: "[0..<m_N grid_wrap_cube] = 0 # [Suc 0..<m_N grid_wrap_cube]"
    by (rule upt_conv_Cons) (simp add: grid_wrap_cube_def)
  have x: "generateXBase grid_wrap_cube (rnd_cube 0) = Inr [0, 0, 0]"
    by (simp add: generate_eval grid_wrap_cube_def rnd_cube_def draws_cube_def)
  have t: "fill_trajectory grid_wrap_cube (rnd_cube 0) [0, 0, 0] 0
             [0..<length (m_step grid_wrap_cube)] [] = Inl OutOfRangeAccess"
    by (simp add: generate_eval grid_wrap_cube_def rnd_cube_def draws_cube_def)
  show ?thesis
    unfolding generate_def rows ks by (simp add: x t and_then_def)
qed

lemma wf_box: "wf_Interval box"
  by (simp add: wf_Interval_def box_def)

lemma constructed_grid_box: "constructed None grid_box"
  using wf_box grid_box_constructed by (rule constructed.from_levels_interval)

lemma wf_pool_far: "wf_Sample pool_far"
  by (simp add: wf_Sample_def pool_far_def)

lemma wf_interval_2_8: "wf_Interval interval_2_8"
  by (simp add: wf_Interval_def interval_2_8_def)

lemma constructed_gen_far: "constructed (Some pool_far) gen_far"
  using wf_pool_far wf_interval_2_8 gen_far_constructed
  by (rule constructed.from_lhs_interval)

lemma xBase_grid_box: "xBase_of grid_box draws3 = [1 / 2, 1 / 2]"
  by (simp add: xBase_of_def generate_eval grid_box_def box_def draws3_def)

lemma gen_pool_half_constructed: "MorrisExperiment_lhs pool_half 1 = Inr gen_pool_half"
  by (simp add: MorrisExperiment_lhs_def getMin_def getMax_def getSize_def component_def
        outside_unit_cube_def pool_half_def gen_pool_half_def)

lemma generate_gen_pool_half: "generate gen_pool_half rnd1 = Inr [[1 / 2], [1]]"
  by (simp add: generate_eval gen_pool_half_def pool_half_def rnd1_def draws1_def)




subsection \<open>The shape and the order of the sample\<close>

text \<open>
  Claim C1. Let a generator be returned by one of the four constructors, with \<open>d \<ge> 1\<close>
  the dimension of its step vector, \<open>N\<close> its trajectory count, a non-empty pool where
  a pool was supplied, and \<open>N * (d + 1) < 2 ^ 64\<close>. Whatever the random source returns
  within its contract, \<open>generate\<close> returns a sample of exactly \<open>N * (d + 1)\<close> points,
  each of dimension \<open>d\<close>. The points are grouped by trajectory, the trajectories in
  generation order: row \<open>k * (d + 1)\<close> is the first point of trajectory \<open>k\<close>, which is
  the base point drawn for that trajectory, moved up by one step in the coordinates
  whose direction is \<open>-1\<close>, and mapped to the interval. The points of a trajectory
  stand in walk order: for some ordering \<open>q\<close> of the \<open>d\<close> coordinates, row
  \<open>k * (d + 1) + i\<close> is the first point with the first \<open>i\<close> coordinates of \<open>q\<close> each
  moved by \<open>direction * (upperBound - lowerBound) * step\<close>.
\<close>

theorem generate_sample:
  assumes "constructed pool e" and "pool_not_empty pool" and "0 < length (m_step e)"
    and "\<forall>k < m_N e. admissible (length (m_step e)) (rnd k)"
    and "m_N e * (length (m_step e) + 1) < 2 ^ 64"
  shows "\<exists>S. generate e rnd = Inr S \<and>
       length S = m_N e * (length (m_step e) + 1) \<and>
       (\<forall>row \<in> set S. length row = length (m_step e)) \<and>
       (\<forall>k < m_N e.
             (\<forall>p < length (m_step e).
                S ! (k * (length (m_step e) + 1)) ! p =
                  (upperBound (m_interval e) ! p - lowerBound (m_interval e) ! p) *
                    (xBase_of e (rnd k) ! p
                     + (if directions (rnd k) ! p = 1 then 0 else m_step e ! p))
                  + lowerBound (m_interval e) ! p) \<and>
             (\<exists>q. distinct q \<and> set q = {..<length (m_step e)} \<and>
                (\<forall>i < length (m_step e) + 1. \<forall>p < length (m_step e).
                   S ! (k * (length (m_step e) + 1) + i) ! p =
                     S ! (k * (length (m_step e) + 1)) ! p +
                       (if p \<in> set (take i q)
                        then directions (rnd k) ! p *
                               (upperBound (m_interval e) ! p - lowerBound (m_interval e) ! p) *
                               m_step e ! p
                        else 0))))"
proof -
  let ?d = "length (m_step e)"
  obtain S where S: "generate e rnd = Inr S"
    using generate_succeeds [OF assms(1,4,5)] by blast
  have start: "S ! (k * (?d + 1)) ! p =
                  (upperBound (m_interval e) ! p - lowerBound (m_interval e) ! p) *
                    (xBase_of e (rnd k) ! p
                     + (if directions (rnd k) ! p = 1 then 0 else m_step e ! p))
                  + lowerBound (m_interval e) ! p"
    if "k < m_N e" "p < ?d" for k p
    using assms(1) _ S that by (rule trajectory_start) (use assms(4) that in simp)
  have walk: "\<exists>q. distinct q \<and> set q = {..<?d} \<and>
                (\<forall>i < ?d + 1. \<forall>p < ?d.
                   S ! (k * (?d + 1) + i) ! p =
                     S ! (k * (?d + 1)) ! p +
                       (if p \<in> set (take i q)
                        then directions (rnd k) ! p *
                               (upperBound (m_interval e) ! p - lowerBound (m_interval e) ! p) *
                               m_step e ! p
                        else 0))"
    if k: "k < m_N e" for k
  proof (intro exI [of _ "[0..<?d]"] conjI allI impI)
    show "distinct [0..<?d]" by simp
    show "set [0..<?d] = {..<?d}" by auto
    fix i p
    assume i: "i < ?d + 1" and p: "p < ?d"
    have "take i [0..<?d] = [0..<i]" using i by (simp add: take_upt)
    then have mem: "p \<in> set (take i [0..<?d]) \<longleftrightarrow> p < i" by simp
    have adm: "admissible ?d (rnd k)" using assms(4) k by simp
    show "S ! (k * (?d + 1) + i) ! p =
            S ! (k * (?d + 1)) ! p +
              (if p \<in> set (take i [0..<?d])
               then directions (rnd k) ! p *
                      (upperBound (m_interval e) ! p - lowerBound (m_interval e) ! p) *
                      m_step e ! p
               else 0)"
      unfolding mem using assms(1) adm S k i p by (rule trajectory_walk)
  qed
  show ?thesis
    using S generate_length [OF S assms(5)] start walk by blast
qed

theorem generate_sample_witness:
  "constructed None grid_box \<and> pool_not_empty None \<and> 0 < length (m_step grid_box) \<and>
   admissible (length (m_step grid_box)) (rnd_two 0) \<and>
   admissible (length (m_step grid_box)) (rnd_two 1) \<and>
   m_N grid_box * (length (m_step grid_box) + 1) < 2 ^ 64 \<and>
   generate grid_box rnd_two = Inr sample_box \<and>
   length sample_box = 2 * (2 + 1) \<and>
   length (sample_box ! 5) = 2 \<and>
   sample_box ! 0 ! 0 = (8 - 2) * (xBase_of grid_box (rnd_two 0) ! 0 + 0) + 2 \<and>
   sample_box ! 3 ! 0 = (8 - 2) * (xBase_of grid_box (rnd_two 1) ! 0 + 1 / 2) + 2 \<and>
   sample_box ! 3 ! 0 = 8"
proof -
  have ne: "pool_not_empty None" by simp
  have d: "0 < length (m_step grid_box)" and len: "length (m_step grid_box) = 2"
    and n: "m_N grid_box = 2"
    by (simp_all add: grid_box_def)
  have a0: "admissible (length (m_step grid_box)) (rnd_two 0)"
    and a1: "admissible (length (m_step grid_box)) (rnd_two 1)"
    unfolding len using admissible_draws2 admissible_draws3 by (simp_all add: rnd_two_def)
  have a: "\<forall>k < m_N grid_box. admissible (length (m_step grid_box)) (rnd_two k)"
    unfolding len using admissible_draws2 admissible_draws3 by (simp add: rnd_two_def)
  have b: "m_N grid_box * (length (m_step grid_box) + 1) < 2 ^ 64"
    by (simp add: grid_box_def)
  from generate_sample [OF constructed_grid_box ne d a b] obtain S where
    S: "generate grid_box rnd_two = Inr S" and
    size: "length S = m_N grid_box * (length (m_step grid_box) + 1)" and
    rows: "\<forall>row \<in> set S. length row = length (m_step grid_box)" and
    walk: "\<forall>k < m_N grid_box.
             (\<forall>p < length (m_step grid_box).
                S ! (k * (length (m_step grid_box) + 1)) ! p =
                  (upperBound (m_interval grid_box) ! p - lowerBound (m_interval grid_box) ! p) *
                    (xBase_of grid_box (rnd_two k) ! p
                     + (if directions (rnd_two k) ! p = 1 then 0 else m_step grid_box ! p))
                  + lowerBound (m_interval grid_box) ! p) \<and>
             (\<exists>q. distinct q \<and> set q = {..<length (m_step grid_box)} \<and>
                (\<forall>i < length (m_step grid_box) + 1. \<forall>p < length (m_step grid_box).
                   S ! (k * (length (m_step grid_box) + 1) + i) ! p =
                     S ! (k * (length (m_step grid_box) + 1)) ! p +
                       (if p \<in> set (take i q)
                        then directions (rnd_two k) ! p *
                               (upperBound (m_interval grid_box) ! p
                                - lowerBound (m_interval grid_box) ! p) *
                               m_step grid_box ! p
                        else 0)))"
    by blast
  have eq: "S = sample_box" using S generate_grid_box by simp
  have l6: "length sample_box = 2 * (2 + 1)" using size unfolding eq len n .
  have "sample_box ! 5 \<in> set sample_box" by (simp add: sample_box_def)
  then have r5: "length (sample_box ! 5) = 2" using rows unfolding eq len by blast
  have start: "S ! (k * (length (m_step grid_box) + 1)) ! 0 =
                  (upperBound (m_interval grid_box) ! 0 - lowerBound (m_interval grid_box) ! 0) *
                    (xBase_of grid_box (rnd_two k) ! 0
                     + (if directions (rnd_two k) ! 0 = 1 then 0 else m_step grid_box ! 0))
                  + lowerBound (m_interval grid_box) ! 0" if "k < 2" for k
    using walk that d unfolding n by blast
  have s0: "sample_box ! 0 ! 0 = (8 - 2) * (xBase_of grid_box (rnd_two 0) ! 0 + 0) + 2"
    using start [of 0] unfolding eq
    by (simp add: grid_box_def box_def rnd_two_def draws2_def)
  have s3: "sample_box ! 3 ! 0 = (8 - 2) * (xBase_of grid_box (rnd_two 1) ! 0 + 1 / 2) + 2"
    using start [of 1] unfolding eq
    by (simp add: grid_box_def box_def rnd_two_def draws3_def numeral_3_eq_3)
  have v: "sample_box ! 3 ! 0 = 8"
    unfolding s3 by (simp add: rnd_two_def xBase_grid_box)
  show ?thesis
    using constructed_grid_box ne d a0 a1 b generate_grid_box l6 r5 s0 s3 v
    by (intro conjI)
qed

text \<open>
  Claim C1 as stated fails where the 64-bit product \<open>N * (d + 1)\<close> wraps:
  \<^verbatim>\<open>MorrisExperiment([2], 2^63)\<close> is constructed, the support sample of line 150 has
  \<open>2^63 * 2 mod 2^64 = 0\<close> rows, and the first write of line 180 falls outside it.
\<close>

theorem generate_sample_counterexample:
  "MorrisExperiment_levels [2] (2 ^ 63) = Inr grid_wrap \<and>
   admissible 1 (rnd1 0) \<and>
   generate grid_wrap rnd1 = Inl OutOfRangeAccess"
  using grid_wrap_constructed admissible_draws1 generate_grid_wrap
  by (simp add: rnd1_def)

subsection \<open>No error during generation\<close>

text \<open>
  Claim C8. Let a generator be returned by one of the four constructors, with
  dimension \<open>d \<ge> 1\<close>, a non-empty pool where a pool was supplied, and
  \<open>N * (d + 1) < 2 ^ 64\<close>. For every random source within its contract, \<open>generate\<close>
  returns a sample: the \<^verbatim>\<open>throw\<close> of \<open>getOrientationMatrixColumn\<close> is not reached and
  every unchecked access of the loops is in range.
\<close>

theorem generate_never_throws:
  assumes "constructed pool e" and "pool_not_empty pool" and "0 < length (m_step e)"
    and "\<forall>k < m_N e. admissible (length (m_step e)) (rnd k)"
    and "m_N e * (length (m_step e) + 1) < 2 ^ 64"
  shows "\<exists>S. generate e rnd = Inr S"
  using assms(1,4,5) by (rule generate_succeeds)

theorem generate_never_throws_witness:
  "constructed (Some pool_far) gen_far \<and> pool_not_empty (Some pool_far) \<and>
   0 < length (m_step gen_far) \<and> admissible (length (m_step gen_far)) (rnd1 0) \<and>
   m_N gen_far * (length (m_step gen_far) + 1) < 2 ^ 64 \<and>
   (\<exists>S. generate gen_far rnd1 = Inr S)"
proof -
  have ne: "pool_not_empty (Some pool_far)" by (simp add: getSize_def pool_far_def)
  have d: "0 < length (m_step gen_far)" by (simp add: gen_far_def)
  have a0: "admissible (length (m_step gen_far)) (rnd1 0)"
    using admissible_draws1 by (simp add: gen_far_def rnd1_def)
  have a: "\<forall>k < m_N gen_far. admissible (length (m_step gen_far)) (rnd1 k)"
    using admissible_draws1 by (simp add: gen_far_def rnd1_def)
  have b: "m_N gen_far * (length (m_step gen_far) + 1) < 2 ^ 64"
    by (simp add: gen_far_def)
  have "\<exists>S. generate gen_far rnd1 = Inr S"
    using constructed_gen_far ne d a b by (rule generate_never_throws)
  then show ?thesis using constructed_gen_far ne d a0 b by (intro conjI)
qed

text \<open>
  Claim C8 as stated fails where the row count wraps: \<^verbatim>\<open>MorrisExperiment([2, 2, 2], 2^62)\<close>
  is constructed without error, the support sample has \<open>2^62 * 4 mod 2^64 = 0\<close> rows,
  and \<open>generate\<close> does not return a sample.
\<close>

theorem generate_never_throws_counterexample:
  "MorrisExperiment_levels [2, 2, 2] (2 ^ 62) = Inr grid_wrap_cube \<and>
   admissible 3 (rnd_cube 0) \<and>
   generate grid_wrap_cube rnd_cube = Inl OutOfRangeAccess"
  using grid_wrap_cube_constructed admissible_draws_cube generate_grid_wrap_cube
  by (simp add: rnd_cube_def)

subsection \<open>The levels-based constructors\<close>

text \<open>
  Claim C5, as the code has it. The constructor from levels alone fails with the
  error "Levels should be at least 2" (\<open>InvalidConfiguration\<close>) exactly when some level
  is at most 1. The constructor from levels and an interval checks the sizes first:
  it fails with \<open>DimensionMismatch\<close> exactly when the number of levels differs from
  the dimension of the interval, and with \<open>InvalidConfiguration\<close> exactly when the
  sizes agree and some level is at most 1. When either constructor succeeds, the
  step of every dimension \<open>k\<close> is \<open>1 / (levels[k] - 1)\<close>.
\<close>

theorem levels_constructors:
  "(MorrisExperiment_levels levels N = Inl (InvalidArgumentException InvalidConfiguration)
      \<longleftrightarrow> (\<exists>l \<in> set levels. l \<le> 1)) \<and>
   (MorrisExperiment_levels_interval levels interval N
        = Inl (InvalidArgumentException InvalidConfiguration)
      \<longleftrightarrow> length levels = getDimension interval \<and> (\<exists>l \<in> set levels. l \<le> 1)) \<and>
   (MorrisExperiment_levels_interval levels interval N
        = Inl (InvalidArgumentException DimensionMismatch)
      \<longleftrightarrow> length levels \<noteq> getDimension interval) \<and>
   (\<forall>e. MorrisExperiment_levels levels N = Inr e
          \<or> MorrisExperiment_levels_interval levels interval N = Inr e
      \<longrightarrow> length (m_step e) = length levels \<and>
          (\<forall>k < length levels. m_step e ! k = 1 / (real (levels ! k) - 1)))"
proof -
  have a: "MorrisExperiment_levels levels N = Inl (InvalidArgumentException InvalidConfiguration)
      \<longleftrightarrow> (\<exists>l \<in> set levels. l \<le> 1)"
    using compute_step_Inl [of levels "InvalidArgumentException InvalidConfiguration"]
    by (auto simp add: MorrisExperiment_levels_def split: sum.splits)
  have b: "MorrisExperiment_levels_interval levels interval N
        = Inl (InvalidArgumentException InvalidConfiguration)
      \<longleftrightarrow> length levels = getDimension interval \<and> (\<exists>l \<in> set levels. l \<le> 1)"
    using compute_step_Inl [of levels "InvalidArgumentException InvalidConfiguration"]
    by (auto simp add: MorrisExperiment_levels_interval_def split: sum.splits)
  have c: "MorrisExperiment_levels_interval levels interval N
        = Inl (InvalidArgumentException DimensionMismatch)
      \<longleftrightarrow> length levels \<noteq> getDimension interval"
    using compute_step_cases [of levels]
    by (auto simp add: MorrisExperiment_levels_interval_def split: sum.splits)
  have d: "length (m_step e) = length levels \<and>
          (\<forall>k < length levels. m_step e ! k = 1 / (real (levels ! k) - 1))"
    if "MorrisExperiment_levels levels N = Inr e
          \<or> MorrisExperiment_levels_interval levels interval N = Inr e" for e
  proof -
    from that obtain st where "compute_step levels = Inr st" and "m_step e = st"
      by (auto simp add: MorrisExperiment_levels_def MorrisExperiment_levels_interval_def
            split: sum.splits if_splits)
    then show ?thesis using compute_step_Inr [of levels st] by simp
  qed
  show ?thesis using a b c d by blast
qed

theorem levels_constructors_witness:
  "MorrisExperiment_levels [2, 2] 1 = Inr grid2 \<and>
   \<not> (\<exists>l \<in> set [2, 2::nat]. l \<le> 1) \<and>
   length (m_step grid2) = length [2, 2::nat] \<and>
   m_step grid2 ! 1 = 1 / (real ([2, 2] ! 1) - 1)"
proof -
  have "length (m_step grid2) = length [2, 2::nat] \<and>
        (\<forall>k < length [2, 2::nat]. m_step grid2 ! k = 1 / (real ([2, 2] ! k) - 1))"
    using levels_constructors [of "[2, 2]" 1 "Interval_unit 2"] grid2_constructed by blast
  then show ?thesis using grid2_constructed by simp
qed

text \<open>
  Claim C5 as stated fails for the second constructor: with one level equal to 1 and
  an interval of dimension 2, the error raised is the one about the sizes.
\<close>

theorem levels_constructors_counterexample:
  "[1::nat] ! 0 \<le> 1 \<and>
   MorrisExperiment_levels_interval [1] (Interval_unit 2) 1
     = Inl (InvalidArgumentException DimensionMismatch) \<and>
   MorrisExperiment_levels_interval [1] (Interval_unit 2) 1
     \<noteq> Inl (InvalidArgumentException InvalidConfiguration)"
  by (simp add: MorrisExperiment_levels_interval_def Interval_unit_def getDimension_def)

subsection \<open>The pool-only constructor\<close>

text \<open>
  Claim C6. On a well-formed design, the pool-only constructor fails with the error
  "Given design is not in [0,1]^d" (\<open>OutOfRangeInput\<close>) if and only if some coordinate
  of some point of the design lies outside \<open>[0, 1]\<close>; when it succeeds, the design is
  stored unchanged.
\<close>

theorem pool_constructor:
  assumes "wf_Sample lhsDesign"
  shows "(MorrisExperiment_lhs lhsDesign N = Inl (InvalidArgumentException OutOfRangeInput)
            \<longleftrightarrow> (\<exists>pt \<in> set (points lhsDesign). \<exists>c \<in> set pt. c < 0 \<or> 1 < c)) \<and>
         (\<forall>e. MorrisExperiment_lhs lhsDesign N = Inr e \<longrightarrow> m_experiment e = lhsDesign)"
proof (cases "points lhsDesign = []")
  case True
  then show ?thesis
    by (simp add: MorrisExperiment_lhs_def getMin_def getSize_def)
next
  case False
  then obtain xMin xMax where mm: "getMin lhsDesign = Inr xMin" "getMax lhsDesign = Inr xMax"
    by (auto simp add: getMin_def getMax_def getSize_def)
  show ?thesis
    using outside_unit_cube_iff [OF assms False mm] mm
    by (auto simp add: MorrisExperiment_lhs_def)
qed

theorem pool_constructor_witness:
  "wf_Sample pool_high \<and>
   MorrisExperiment_lhs pool_high 1 = Inl (InvalidArgumentException OutOfRangeInput)"
proof -
  have wf: "wf_Sample pool_high" by (simp add: wf_Sample_def pool_high_def)
  have "\<exists>pt \<in> set (points pool_high). \<exists>c \<in> set pt. c < 0 \<or> 1 < c"
    by (intro bexI [of _ "[3 / 2]"] bexI [of _ "3 / 2"]) (simp_all add: pool_high_def)
  then show ?thesis using pool_constructor [OF wf, of 1] wf by blast
qed

subsection \<open>The constructor from a pool and an interval\<close>

text \<open>
  Claim C7. The constructor from a design and an interval fails with
  \<open>DimensionMismatch\<close> exactly when the two dimensions differ. Otherwise it stores the
  design renormalized coordinate by coordinate: in every coordinate \<open>k\<close> where the
  interval is not degenerate, the stored value is
  \<open>(pool - lowerBound_k) / (upperBound_k - lowerBound_k)\<close>. Every base point drawn later
  is the stored point at the drawn index, with no further transform.
\<close>

theorem pool_interval_constructor:
  "(MorrisExperiment_lhs_interval lhsDesign interval N
       = Inl (InvalidArgumentException DimensionMismatch)
      \<longleftrightarrow> dimension lhsDesign \<noteq> getDimension interval) \<and>
   (\<forall>e. MorrisExperiment_lhs_interval lhsDesign interval N = Inr e
          \<and> wf_Sample lhsDesign \<and> wf_Interval interval \<longrightarrow>
      getSize (m_experiment e) = getSize lhsDesign \<and>
      (\<forall>j < getSize lhsDesign. \<forall>k < dimension lhsDesign.
         lowerBound interval ! k \<noteq> upperBound interval ! k \<longrightarrow>
         points (m_experiment e) ! j ! k =
           (points lhsDesign ! j ! k - lowerBound interval ! k)
             / (upperBound interval ! k - lowerBound interval ! k)) \<and>
      (\<forall>r. IntegerGenerate r 0 (getSize lhsDesign) < getSize lhsDesign \<longrightarrow>
         generateXBase e r
           = Inr (points (m_experiment e) ! IntegerGenerate r 0 (getSize lhsDesign))))"
proof -
  have a: "MorrisExperiment_lhs_interval lhsDesign interval N
       = Inl (InvalidArgumentException DimensionMismatch)
      \<longleftrightarrow> dimension lhsDesign \<noteq> getDimension interval"
    by (simp add: MorrisExperiment_lhs_interval_def)
  have b: "getSize (m_experiment e) = getSize lhsDesign \<and>
      (\<forall>j < getSize lhsDesign. \<forall>k < dimension lhsDesign.
         lowerBound interval ! k \<noteq> upperBound interval ! k \<longrightarrow>
         points (m_experiment e) ! j ! k =
           (points lhsDesign ! j ! k - lowerBound interval ! k)
             / (upperBound interval ! k - lowerBound interval ! k)) \<and>
      (\<forall>r. IntegerGenerate r 0 (getSize lhsDesign) < getSize lhsDesign \<longrightarrow>
         generateXBase e r
           = Inr (points (m_experiment e) ! IntegerGenerate r 0 (getSize lhsDesign)))"
    if "MorrisExperiment_lhs_interval lhsDesign interval N = Inr e
          \<and> wf_Sample lhsDesign \<and> wf_Interval interval" for e
  proof -
    have size: "getSize (m_experiment e) = getSize lhsDesign"
      using that renormalized_size by blast
    have "generateXBase e r
           = Inr (points (m_experiment e) ! IntegerGenerate r 0 (getSize lhsDesign))"
      if "IntegerGenerate r 0 (getSize lhsDesign) < getSize lhsDesign" for r
      using that size
      by (auto simp add: generateXBase_def generateXBaseFromLHS_def read_def getSize_def)
    then show ?thesis
      using size that renormalized_nth(1) [of lhsDesign interval N e] by blast
  qed
  show ?thesis using a b by blast
qed

theorem pool_interval_constructor_witness:
  "MorrisExperiment_lhs_interval pool_far interval_2_8 1 = Inr gen_far \<and>
   wf_Sample pool_far \<and> wf_Interval interval_2_8 \<and>
   lowerBound interval_2_8 ! 0 \<noteq> upperBound interval_2_8 ! 0 \<and>
   IntegerGenerate draws1 0 (getSize pool_far) < getSize pool_far \<and>
   getSize (m_experiment gen_far) = 1 \<and>
   points (m_experiment gen_far) ! 0 ! 0 = (5 - 2) / (8 - 2) \<and>
   generateXBase gen_far draws1 = Inr (points (m_experiment gen_far) ! 0)"
proof -
  have size: "getSize pool_far = 1" and dim: "dimension pool_far = 1"
    by (simp_all add: getSize_def pool_far_def)
  have draw: "IntegerGenerate draws1 0 n = 0" for n
    by (simp add: draws1_def zero_draw_def)
  have pt: "points pool_far ! 0 ! 0 = 5"
    and lo: "lowerBound interval_2_8 ! 0 = 2"
    and up: "upperBound interval_2_8 ! 0 = 8"
    by (simp_all add: pool_far_def interval_2_8_def)
  have nd: "lowerBound interval_2_8 ! 0 \<noteq> upperBound interval_2_8 ! 0"
    by (simp add: lo up)
  have idx: "IntegerGenerate draws1 0 (getSize pool_far) < getSize pool_far"
    by (simp add: draw size)
  note stored = pool_interval_constructor [of pool_far interval_2_8 1,
      THEN conjunct2, rule_format, of gen_far]
  have all: "getSize (m_experiment gen_far) = getSize pool_far \<and>
      (\<forall>j < getSize pool_far. \<forall>k < dimension pool_far.
         lowerBound interval_2_8 ! k \<noteq> upperBound interval_2_8 ! k \<longrightarrow>
         points (m_experiment gen_far) ! j ! k =
           (points pool_far ! j ! k - lowerBound interval_2_8 ! k)
             / (upperBound interval_2_8 ! k - lowerBound interval_2_8 ! k)) \<and>
      (\<forall>r. IntegerGenerate r 0 (getSize pool_far) < getSize pool_far \<longrightarrow>
         generateXBase gen_far r
           = Inr (points (m_experiment gen_far) ! IntegerGenerate r 0 (getSize pool_far)))"
    using gen_far_constructed wf_pool_far wf_interval_2_8 by (intro stored conjI)
  from all have a: "getSize (m_experiment gen_far) = 1" by (simp only: size)
  from all have "\<forall>j < getSize pool_far. \<forall>k < dimension pool_far.
         lowerBound interval_2_8 ! k \<noteq> upperBound interval_2_8 ! k \<longrightarrow>
         points (m_experiment gen_far) ! j ! k =
           (points pool_far ! j ! k - lowerBound interval_2_8 ! k)
             / (upperBound interval_2_8 ! k - lowerBound interval_2_8 ! k)"
    by (elim conjE)
  then have "points (m_experiment gen_far) ! 0 ! 0 =
           (points pool_far ! 0 ! 0 - lowerBound interval_2_8 ! 0)
             / (upperBound interval_2_8 ! 0 - lowerBound interval_2_8 ! 0)"
    using nd by (simp add: size dim)
  then have b: "points (m_experiment gen_far) ! 0 ! 0 = (5 - 2) / (8 - 2)"
    unfolding pt lo up .
  from all have "\<forall>r. IntegerGenerate r 0 (getSize pool_far) < getSize pool_far \<longrightarrow>
         generateXBase gen_far r
           = Inr (points (m_experiment gen_far) ! IntegerGenerate r 0 (getSize pool_far))"
    by (elim conjE)
  then have "IntegerGenerate draws1 0 (getSize pool_far) < getSize pool_far \<longrightarrow>
         generateXBase gen_far draws1
           = Inr (points (m_experiment gen_far) ! IntegerGenerate draws1 0 (getSize pool_far))"
    by (rule spec)
  then have c: "generateXBase gen_far draws1 = Inr (points (m_experiment gen_far) ! 0)"
    by (simp add: draw size)
  show ?thesis
    using gen_far_constructed wf_pool_far wf_interval_2_8 nd idx a b c by (intro conjI)
qed

text \<open>
  Claim C10. The constructor from a design and an interval accepts every design whose
  dimension is that of the interval and never raises the range error of the pool-only
  constructor. Where a coordinate of the design lies outside a non-degenerate
  interval, the stored renormalized coordinate lies outside \<open>[0, 1]\<close>.
\<close>

theorem pool_interval_no_range_check:
  "(dimension lhsDesign = getDimension interval \<longrightarrow>
      (\<exists>e. MorrisExperiment_lhs_interval lhsDesign interval N = Inr e)) \<and>
   MorrisExperiment_lhs_interval lhsDesign interval N
     \<noteq> Inl (InvalidArgumentException OutOfRangeInput) \<and>
   (\<forall>e j k. MorrisExperiment_lhs_interval lhsDesign interval N = Inr e
        \<and> wf_Sample lhsDesign \<and> wf_Interval interval
        \<and> j < getSize lhsDesign \<and> k < dimension lhsDesign
        \<and> lowerBound interval ! k < upperBound interval ! k
        \<and> (points lhsDesign ! j ! k < lowerBound interval ! k
            \<or> upperBound interval ! k < points lhsDesign ! j ! k) \<longrightarrow>
      points (m_experiment e) ! j ! k < 0 \<or> 1 < points (m_experiment e) ! j ! k)"
proof -
  have a: "dimension lhsDesign = getDimension interval \<longrightarrow>
      (\<exists>e. MorrisExperiment_lhs_interval lhsDesign interval N = Inr e)"
    by (simp add: MorrisExperiment_lhs_interval_def)
  have b: "MorrisExperiment_lhs_interval lhsDesign interval N
     \<noteq> Inl (InvalidArgumentException OutOfRangeInput)"
    by (simp add: MorrisExperiment_lhs_interval_def)
  have c: "points (m_experiment e) ! j ! k < 0 \<or> 1 < points (m_experiment e) ! j ! k"
    if "MorrisExperiment_lhs_interval lhsDesign interval N = Inr e
        \<and> wf_Sample lhsDesign \<and> wf_Interval interval
        \<and> j < getSize lhsDesign \<and> k < dimension lhsDesign
        \<and> lowerBound interval ! k < upperBound interval ! k
        \<and> (points lhsDesign ! j ! k < lowerBound interval ! k
            \<or> upperBound interval ! k < points lhsDesign ! j ! k)" for e j k
  proof -
    have "points (m_experiment e) ! j ! k =
           (points lhsDesign ! j ! k - lowerBound interval ! k)
             / (upperBound interval ! k - lowerBound interval ! k)"
      using that by (intro renormalized_nth(1) [of lhsDesign interval N e]) simp_all
    moreover have "0 < upperBound interval ! k - lowerBound interval ! k"
      using that by simp
    ultimately show ?thesis
      using that by (auto simp add: divide_less_0_iff less_divide_eq)
  qed
  show ?thesis using a b c by blast
qed

theorem pool_interval_no_range_check_witness:
  "dimension pool_far = getDimension (Interval_unit 1) \<and>
   (\<exists>e. MorrisExperiment_lhs_interval pool_far (Interval_unit 1) 1 = Inr e \<and>
        (points (m_experiment e) ! 0 ! 0 < 0 \<or> 1 < points (m_experiment e) ! 0 ! 0))"
proof -
  have d: "dimension pool_far = getDimension (Interval_unit 1)"
    by (simp add: pool_far_def Interval_unit_def getDimension_def)
  with pool_interval_no_range_check [of pool_far "Interval_unit 1" 1]
  obtain e where e: "MorrisExperiment_lhs_interval pool_far (Interval_unit 1) 1 = Inr e"
    by blast
  have "wf_Sample pool_far" "wf_Interval (Interval_unit 1)" "0 < getSize pool_far"
    "0 < dimension pool_far" "lowerBound (Interval_unit 1) ! 0 < upperBound (Interval_unit 1) ! 0"
    "upperBound (Interval_unit 1) ! 0 < points pool_far ! 0 ! 0"
    by (simp_all add: wf_Sample_def wf_Interval_def pool_far_def Interval_unit_def getSize_def)
  with e pool_interval_no_range_check [of pool_far "Interval_unit 1" 1]
  have "points (m_experiment e) ! 0 ! 0 < 0 \<or> 1 < points (m_experiment e) ! 0 ! 0"
    by blast
  with d e show ?thesis by blast
qed

subsection \<open>Base points on the grid\<close>



subsection \<open>Trajectories\<close>

text \<open>
  Claim C2, over the real numbers. For a generator returned by one of the four
  constructors, with a non-empty pool where a pool was supplied, and with
  \<open>lowerBound_p < upperBound_p\<close> in every dimension: rows \<open>i\<close> and \<open>i + 1\<close> of a trajectory
  differ in exactly one coordinate \<open>q\<close>, and the absolute difference there is
  \<open>(upperBound_q - lowerBound_q) * step_q\<close>.
\<close>

theorem one_step_at_a_time:
  assumes "constructed pool e" and "pool_not_empty pool"
    and "admissible (length (m_step e)) (rnd k)"
    and "\<forall>p < length (m_step e). lowerBound (m_interval e) ! p < upperBound (m_interval e) ! p"
    and "generate e rnd = Inr S"
    and "k < m_N e" and "i < length (m_step e)"
  shows "\<exists>q < length (m_step e).
           (\<forall>p < length (m_step e).
              (S ! (k * (length (m_step e) + 1) + (i + 1)) ! p
                 \<noteq> S ! (k * (length (m_step e) + 1) + i) ! p) \<longleftrightarrow> p = q) \<and>
           \<bar>S ! (k * (length (m_step e) + 1) + (i + 1)) ! q
              - S ! (k * (length (m_step e) + 1) + i) ! q\<bar>
             = (upperBound (m_interval e) ! q - lowerBound (m_interval e) ! q) * m_step e ! q"
proof -
  let ?d = "length (m_step e)"
  let ?a = "S ! (k * (?d + 1) + (i + 1))" and ?b = "S ! (k * (?d + 1) + i)"
  have i1: "i + 1 < ?d + 1" and i0: "i < ?d + 1" using assms(7) by simp_all
  have others: "?a ! p = ?b ! p" if "p < ?d" "p \<noteq> i" for p
  proof -
    have "(i + 1 \<le> p) = (i \<le> p)" using that(2) by auto
    then show ?thesis
      unfolding generate_entry [OF assms(5,6) i1 that(1)] generate_entry [OF assms(5,6) i0 that(1)]
      by simp
  qed
  have dl: "delta e ! i = upperBound (m_interval e) ! i - lowerBound (m_interval e) ! i"
    using assms(1,7) by (rule constructed_delta(2))
  have pos: "0 < delta e ! i" using assms(4,7) by (simp add: dl)
  have st: "0 < m_step e ! i" using assms(1,2,7) by (rule constructed_step_positive)
  have dir: "directions (rnd k) ! i = 1 \<or> directions (rnd k) ! i = - 1"
    using assms(3,7) by (rule direction_values)
  have diff: "?a ! i - ?b ! i = delta e ! i * (directions (rnd k) ! i * m_step e ! i)"
    unfolding generate_entry [OF assms(5,6) i1 assms(7)] generate_entry [OF assms(5,6) i0 assms(7)]
    by (simp add: algebra_simps)
  have "\<bar>directions (rnd k) ! i\<bar> = 1" using dir by auto
  then have absd: "\<bar>?a ! i - ?b ! i\<bar> = delta e ! i * m_step e ! i"
    unfolding diff using st pos by (simp add: abs_mult)
  have "0 < delta e ! i * m_step e ! i" using pos st by simp
  then have ne: "?a ! i \<noteq> ?b ! i" using absd by auto
  have "(?a ! p \<noteq> ?b ! p) \<longleftrightarrow> p = i" if "p < ?d" for p
    using others [OF that] ne by auto
  then show ?thesis
    using assms(7) absd unfolding dl by blast
qed

theorem one_step_at_a_time_witness:
  "constructed None grid_box \<and> pool_not_empty None \<and>
   admissible (length (m_step grid_box)) (rnd_two 1) \<and>
   lowerBound (m_interval grid_box) ! 0 < upperBound (m_interval grid_box) ! 0 \<and>
   lowerBound (m_interval grid_box) ! 1 < upperBound (m_interval grid_box) ! 1 \<and>
   generate grid_box rnd_two = Inr sample_box \<and>
   sample_box ! 4 ! 0 \<noteq> sample_box ! 3 ! 0 \<and>
   sample_box ! 4 ! 1 = sample_box ! 3 ! 1 \<and>
   \<bar>sample_box ! 4 ! 0 - sample_box ! 3 ! 0\<bar> = (8 - 2) * (1 / 2)"
proof -
  have ne: "pool_not_empty None" by simp
  have len: "length (m_step grid_box) = 2" by (simp add: grid_box_def)
  have a: "admissible (length (m_step grid_box)) (rnd_two 1)"
    unfolding len using admissible_draws3 by (simp add: rnd_two_def)
  have lt0: "lowerBound (m_interval grid_box) ! 0 < upperBound (m_interval grid_box) ! 0"
    and lt1: "lowerBound (m_interval grid_box) ! 1 < upperBound (m_interval grid_box) ! 1"
    by (simp_all add: grid_box_def box_def)
  have lt: "\<forall>p < length (m_step grid_box).
              lowerBound (m_interval grid_box) ! p < upperBound (m_interval grid_box) ! p"
    unfolding len using lt0 lt1 by (simp add: less_Suc_eq numeral_2_eq_2)
  have k: "1 < m_N grid_box" and i: "0 < length (m_step grid_box)"
    by (simp_all add: grid_box_def)
  from one_step_at_a_time [OF constructed_grid_box ne a lt generate_grid_box k i]
  obtain q where q: "q < 2" and
    only: "\<forall>p < 2. (sample_box ! 4 ! p \<noteq> sample_box ! 3 ! p) \<longleftrightarrow> p = q" and
    size: "\<bar>sample_box ! 4 ! q - sample_box ! 3 ! q\<bar>
             = (upperBound (m_interval grid_box) ! q - lowerBound (m_interval grid_box) ! q)
               * m_step grid_box ! q"
    unfolding len by auto
  have ne0: "sample_box ! 4 ! 0 \<noteq> sample_box ! 3 ! 0" by (simp add: sample_box_def)
  then have q0: "q = 0" using only by auto
  have "(1::nat) < 2" by simp
  with only have "(sample_box ! 4 ! 1 \<noteq> sample_box ! 3 ! 1) \<longleftrightarrow> (1::nat) = q" by blast
  then have eq1: "sample_box ! 4 ! 1 = sample_box ! 3 ! 1" unfolding q0 by simp
  have "\<bar>sample_box ! 4 ! 0 - sample_box ! 3 ! 0\<bar> = (8 - 2) * (1 / 2)"
    using size unfolding q0 by (simp add: grid_box_def box_def)
  then show ?thesis
    using constructed_grid_box ne a lt0 lt1 generate_grid_box ne0 eq1 by (intro conjI)
qed

text \<open>
  Claim C2 as stated fails where the interval is degenerate: with
  \<open>lowerBound = upperBound = [0]\<close> the two rows of the trajectory are equal.
\<close>

theorem one_step_at_a_time_counterexample:
  "wf_Interval flat1 \<and>
   MorrisExperiment_levels_interval [2] flat1 1 = Inr grid_flat \<and>
   admissible 1 draws1 \<and>
   generate grid_flat rnd1 = Inr [[0], [0]] \<and>
   [[0], [0::real]] ! 0 = [[0], [0]] ! 1"
  using grid_flat_constructed generate_grid_flat admissible_draws1
  by (simp add: wf_Interval_def flat1_def)




subsection \<open>The permutation\<close>

text \<open>
  \<open>generate\<close> draws a permutation for every trajectory (line 170) and never reads it:
  the sample does not depend on it.
\<close>

lemma realization_permutations:
  "realization e (r\<lparr>permutations := q\<rparr>) xBase col i p = realization e r xBase col i p"
  by (simp add: realization_def)

lemma fill_column_permutations:
  "fill_column e (r\<lparr>permutations := q\<rparr>) xBase k p col is = fill_column e r xBase k p col is"
proof (induction "is")
  case Nil
  show ?case by (rule ext) simp
next
  case (Cons i "is")
  show ?case by (rule ext) (simp add: realization_permutations Cons.IH)
qed

lemma fill_trajectory_permutations:
  "fill_trajectory e (r\<lparr>permutations := q\<rparr>) xBase k ps = fill_trajectory e r xBase k ps"
proof (induction ps)
  case Nil
  show ?case by (rule ext) simp
next
  case (Cons p ps)
  show ?case by (rule ext) (simp add: fill_column_permutations Cons.IH)
qed

lemma grid_loop_permutations:
  "grid_loop e (r\<lparr>permutations := q\<rparr>) ps = grid_loop e r ps"
proof (induction ps)
  case Nil
  show ?case by (rule ext) simp
next
  case (Cons p ps)
  show ?case by (rule ext) (simp add: level_def Cons.IH)
qed

lemma generateXBase_permutations:
  "generateXBase e (r\<lparr>permutations := q\<rparr>) = generateXBase e r"
proof -
  have "generateXBaseFromLHS e (r\<lparr>permutations := q\<rparr>) = generateXBaseFromLHS e r"
    by (simp add: generateXBaseFromLHS_def)
  moreover
  have "generateXBaseFromGrid e (r\<lparr>permutations := q\<rparr>) = generateXBaseFromGrid e r"
    by (simp add: generateXBaseFromGrid_def grid_loop_permutations)
  ultimately show ?thesis by (simp add: generateXBase_def)
qed

lemma fill_trajectories_permutations:
  "fill_trajectories e (\<lambda>k. (rnd k)\<lparr>permutations := q k\<rparr>) ks = fill_trajectories e rnd ks"
proof (induction ks)
  case Nil
  show ?case by (rule ext) simp
next
  case (Cons k ks)
  show ?case
    by (rule ext)
       (simp add: generateXBase_permutations fill_trajectory_permutations Cons.IH)
qed

lemma generate_permutations_irrelevant:
  "generate e (\<lambda>k. (rnd k)\<lparr>permutations := q k\<rparr>) = generate e rnd"
  by (simp add: generate_def fill_trajectories_permutations)

text \<open>
  Claim C4 says that rows \<open>i\<close> and \<open>i + 1\<close> of a trajectory differ in the coordinate
  that the drawn permutation holds at position \<open>i\<close>, as the comments of \<open>generate\<close>
  announce ("B * P ==> permutation of the orientation matrix"). The code perturbs
  coordinate \<open>i\<close> instead: for \<^verbatim>\<open>MorrisExperiment([2, 2], 1)\<close> with the drawn
  permutation \<open>(1, 0)\<close>, rows 0 and 1 agree in coordinate 1 and differ in coordinate 0.
\<close>

theorem permutation_not_applied:
  "MorrisExperiment_levels [2, 2] 1 = Inr grid2 \<and>
   permutations (rnd2 0) = [1, 0] \<and>
   generate grid2 rnd2 = Inr [[0, 0], [1, 0], [1, 1]] \<and>
   [[0, 0], [1, 0], [1, 1::real]] ! 0 ! (permutations (rnd2 0) ! 0)
     = [[0, 0], [1, 0], [1, 1]] ! 1 ! (permutations (rnd2 0) ! 0) \<and>
   [[0, 0], [1, 0], [1, 1::real]] ! 0 ! 0 \<noteq> [[0, 0], [1, 0], [1, 1]] ! 1 ! 0"
  using grid2_constructed generate_grid2 by (simp add: rnd2_def draws2_def)

end
